theory Spec2Isabelle
  imports Main "HOL-Library.Multiset"
begin

section \<open>Data model of \<^verbatim>\<open>recommender.py\<close>\<close>

text \<open>
  The value found in the \<^verbatim>\<open>movie_id\<close> column of the item table and handed to
  \<^verbatim>\<open>fetch_poster\<close>: a Python integer, \<^verbatim>\<open>None\<close>, the float NaN that pandas
  stores for a missing number, or one of the two float infinities. These kinds reach
  every way \<^verbatim>\<open>int(movie_id)\<close> can end: a value to compare, \<^verbatim>\<open>TypeError\<close>
  (\<^verbatim>\<open>None\<close>), \<^verbatim>\<open>ValueError\<close> (NaN), and \<^verbatim>\<open>OverflowError\<close> (an infinity), which
  \<^verbatim>\<open>_is_valid_movie_id\<close> does not catch. Strings and finite floats, which coerce or
  raise \<^verbatim>\<open>ValueError\<close>, are not modelled.
\<close>

datatype id_value = IdInt int | IdNone | IdNaN | IdInf | IdNegInf

text \<open>
  Files of \<^verbatim>\<open>POSTER_CACHE_DIR\<close>. \<^verbatim>\<open>_poster_path\<close> and \<^verbatim>\<open>_fail_marker_path\<close>
  format the identifier into the file name; the two constructors stand for the two
  extensions, and distinct identifiers give distinct names.
\<close>

datatype path = PosterPath id_value | FailMarkerPath id_value

text \<open>
  The two request targets: \<^verbatim>\<open>TMDB_MOVIE_URL.format(movie_id, api_key)\<close> and
  \<^verbatim>\<open>TMDB_IMAGE_BASE + locator\<close>.
\<close>

datatype url = MovieUrl id_value string | ImageUrl string

text \<open>
  What \<^verbatim>\<open>data.get("poster_path")\<close> finds in a JSON object: nothing, null or another
  falsy value; a string; or a truthy value that is not a string (it has no
  \<^verbatim>\<open>lstrip\<close>).
\<close>

datatype poster_field = NoPoster | PosterStr string | PosterNonStr

text \<open>
  What \<^verbatim>\<open>resp.json()\<close> does on a body: it raises a decoding error (a
  \<^verbatim>\<open>RequestException\<close> of the requests library), yields a falsy value (replaced by
  \<^verbatim>\<open>{}\<close>), yields an object, or yields a truthy value that is not an object (it
  has no \<^verbatim>\<open>get\<close>).
\<close>

datatype json_value = JsonInvalid | JsonFalsy | JsonObject poster_field | JsonNonObject

record response =
  status_code :: int
  json_body :: json_value
  content :: string

text \<open>
  \<^verbatim>\<open>requests.get\<close> either raises a \<^verbatim>\<open>RequestException\<close> (connection error,
  timeout) or returns a response.
\<close>

datatype http_result = RequestException | Response response

datatype py_error = OSError | AttributeError | IndexError | OverflowError

text \<open>
  What the file system does when a file is opened for writing and bytes are written to
  it: \<^verbatim>\<open>open\<close> raises \<^verbatim>\<open>OSError\<close> (no permission) and nothing changes; \<^verbatim>\<open>open\<close>
  succeeds, so the file exists, and the write raises \<^verbatim>\<open>OSError\<close> after so many bytes
  have reached it (disk full); or both succeed.
\<close>

datatype write_outcome = OpenFails | WriteFails nat | WriteOk

text \<open>
  Everything outside the function that \<^verbatim>\<open>fetch_poster\<close> reads or changes: the
  credential read from the environment, the cache directory (file name to content),
  what the file system does with a write to each file, the remote provider (its answer
  depends on the request and on how many requests were made before), the requests made
  so far, and the seconds spent in \<^verbatim>\<open>time.sleep\<close>.
\<close>

record world =
  TMDB_API_KEY :: "string option"
  files :: "path \<rightharpoonup> string"
  disk :: "path \<Rightarrow> write_outcome"
  provider :: "nat \<Rightarrow> url \<Rightarrow> http_result"
  http_log :: "url list"
  slept :: nat

section \<open>The asset store\<close>

definition poster_path :: "id_value \<Rightarrow> path" where
  "poster_path movie_id = PosterPath movie_id"

definition fail_marker_path :: "id_value \<Rightarrow> path" where
  "fail_marker_path movie_id = FailMarkerPath movie_id"

definition path_exists :: "world \<Rightarrow> path \<Rightarrow> bool" where
  "path_exists w p = (files w p \<noteq> None)"

definition has_fail_marker :: "id_value \<Rightarrow> world \<Rightarrow> bool" where
  "has_fail_marker movie_id w = path_exists w (fail_marker_path movie_id)"

text \<open>The file can be opened for writing; the file can be opened and written in full.\<close>

definition openable :: "world \<Rightarrow> path \<Rightarrow> bool" where
  "openable w p = (disk w p \<noteq> OpenFails)"

definition writable :: "world \<Rightarrow> path \<Rightarrow> bool" where
  "writable w p = (disk w p = WriteOk)"

text \<open>
  \<^verbatim>\<open>open(path, "a").close()\<close>: creates the empty file when it is missing and leaves an
  existing one as it is; an \<^verbatim>\<open>OSError\<close> is swallowed.
\<close>

definition write_fail_marker :: "id_value \<Rightarrow> world \<Rightarrow> world" where
  "write_fail_marker movie_id w =
     (let p = fail_marker_path movie_id in
      if openable w p
      then w\<lparr>files := (files w)(p \<mapsto> (case files w p of None \<Rightarrow> [] | Some c \<Rightarrow> c))\<rparr>
      else w)"

text \<open>
  \<^verbatim>\<open>_is_valid_movie_id\<close>: the \<^verbatim>\<open>except\<close> clause turns \<^verbatim>\<open>TypeError\<close> and
  \<^verbatim>\<open>ValueError\<close> into \<^verbatim>\<open>False\<close>; the \<^verbatim>\<open>OverflowError\<close> of an infinity escapes.
\<close>

definition is_valid_movie_id :: "id_value \<Rightarrow> py_error + bool" where
  "is_valid_movie_id movie_id =
     (case movie_id of
        IdInt mid \<Rightarrow> Inr (mid > 0)
      | IdNone \<Rightarrow> Inr False
      | IdNaN \<Rightarrow> Inr False
      | IdInf \<Rightarrow> Inl OverflowError
      | IdNegInf \<Rightarrow> Inl OverflowError)"

section \<open>The asset fetcher\<close>

definition requests_get :: "url \<Rightarrow> world \<Rightarrow> http_result \<times> world" where
  "requests_get u w = (provider w (length (http_log w)) u, w\<lparr>http_log := http_log w @ [u]\<rparr>)"

text \<open>\<^verbatim>\<open>raise_for_status\<close> raises an \<^verbatim>\<open>HTTPError\<close> for the 4xx and 5xx codes.\<close>

definition raises_for_status :: "response \<Rightarrow> bool" where
  "raises_for_status resp = (400 \<le> status_code resp \<and> status_code resp < 600)"

definition lstrip_slash :: "string \<Rightarrow> string" where
  "lstrip_slash s = dropWhile (\<lambda>c. c = CHR ''/'') s"

text \<open>
  One pass through the body of the \<^verbatim>\<open>for\<close> loop: it returns a value, lets an
  exception escape, or lands in the \<^verbatim>\<open>except RequestException\<close> clause.
\<close>

datatype attempt_result = Returned "path option" | Raised py_error | RequestFailed

text \<open>
  \<^verbatim>\<open>with open(cache_path, "wb") as f: f.write(img_resp.content)\<close>, then
  \<^verbatim>\<open>return cache_path\<close>. When the write fails the file that \<^verbatim>\<open>open\<close> created stays
  behind with the bytes that reached it, and the \<^verbatim>\<open>OSError\<close> escapes.
\<close>

definition save_image :: "id_value \<Rightarrow> response \<Rightarrow> world \<Rightarrow> attempt_result \<times> world" where
  "save_image movie_id img_resp w =
     (let cache_path = poster_path movie_id in
      case disk w cache_path of
        OpenFails \<Rightarrow> (Raised OSError, w)
      | WriteFails n \<Rightarrow>
          (Raised OSError, w\<lparr>files := (files w)(cache_path \<mapsto> take n (content img_resp))\<rparr>)
      | WriteOk \<Rightarrow>
          (Returned (Some cache_path), w\<lparr>files := (files w)(cache_path \<mapsto> content img_resp)\<rparr>))"

definition fetch_image :: "id_value \<Rightarrow> string \<Rightarrow> world \<Rightarrow> attempt_result \<times> world" where
  "fetch_image movie_id poster w =
     (case requests_get (ImageUrl (lstrip_slash poster)) w of
        (RequestException, w2) \<Rightarrow> (RequestFailed, w2)
      | (Response img_resp, w2) \<Rightarrow>
          if status_code img_resp = 404 then (Returned None, write_fail_marker movie_id w2)
          else if raises_for_status img_resp then (RequestFailed, w2)
          else save_image movie_id img_resp w2)"

definition fetch_attempt :: "id_value \<Rightarrow> string \<Rightarrow> world \<Rightarrow> attempt_result \<times> world" where
  "fetch_attempt movie_id api_key w =
     (case requests_get (MovieUrl movie_id api_key) w of
        (RequestException, w1) \<Rightarrow> (RequestFailed, w1)
      | (Response resp, w1) \<Rightarrow>
          if status_code resp = 404 then (Returned None, write_fail_marker movie_id w1)
          else if raises_for_status resp then (RequestFailed, w1)
          else (case json_body resp of
                  JsonInvalid \<Rightarrow> (RequestFailed, w1)
                | JsonNonObject \<Rightarrow> (Raised AttributeError, w1)
                | JsonFalsy \<Rightarrow> (Returned None, write_fail_marker movie_id w1)
                | JsonObject NoPoster \<Rightarrow> (Returned None, write_fail_marker movie_id w1)
                | JsonObject PosterNonStr \<Rightarrow> (Raised AttributeError, w1)
                | JsonObject (PosterStr poster) \<Rightarrow>
                    if poster = [] then (Returned None, write_fail_marker movie_id w1)
                    else fetch_image movie_id poster w1))"

definition sleep :: "nat \<Rightarrow> world \<Rightarrow> world" where
  "sleep n w = w\<lparr>slept := slept w + n\<rparr>"

text \<open>
  \<^verbatim>\<open>for attempt in range(retries)\<close>, over the attempts still to run; falling out of
  the loop reaches the final \<^verbatim>\<open>return None\<close>.
\<close>

fun fetch_loop :: "id_value \<Rightarrow> string \<Rightarrow> int \<Rightarrow> nat list \<Rightarrow> world \<Rightarrow> (py_error + path option) \<times> world" where
  "fetch_loop movie_id api_key retries [] w = (Inr None, w)"
| "fetch_loop movie_id api_key retries (attempt # rest) w =
     (case fetch_attempt movie_id api_key w of
        (Returned r, w') \<Rightarrow> (Inr r, w')
      | (Raised e, w') \<Rightarrow> (Inl e, w')
      | (RequestFailed, w') \<Rightarrow>
          if int attempt < retries - 1
          then fetch_loop movie_id api_key retries rest (sleep 1 w')
          else (Inr None, w'))"

text \<open>
  \<^verbatim>\<open>fetch_poster\<close>. The \<^verbatim>\<open>timeout\<close> argument only travels to \<^verbatim>\<open>requests.get\<close>,
  and the provider's answer already says whether the request timed out, so it is not a
  parameter here. The credential counts as missing when the variable is unset or empty.
\<close>

definition fetch_poster :: "id_value \<Rightarrow> int \<Rightarrow> world \<Rightarrow> (py_error + path option) \<times> world" where
  "fetch_poster movie_id retries w =
     (case TMDB_API_KEY w of
        None \<Rightarrow> (Inr None, w)
      | Some api_key \<Rightarrow>
          if api_key = [] then (Inr None, w)
          else (case is_valid_movie_id movie_id of
                  Inl e \<Rightarrow> (Inl e, w)
                | Inr False \<Rightarrow> (Inr None, write_fail_marker movie_id w)
                | Inr True \<Rightarrow>
                    if path_exists w (poster_path movie_id)
                    then (Inr (Some (poster_path movie_id)), w)
                    else if has_fail_marker movie_id w then (Inr None, w)
                    else fetch_loop movie_id api_key retries [0..<nat retries] w))"

section \<open>The catalog and the recommender\<close>

text \<open>
  The item table returned by \<^verbatim>\<open>load_movies\<close>: which of the two columns it has, and
  its rows in order, each with its index label. \<^verbatim>\<open>pd.DataFrame\<close> takes the labels from
  the pickled dictionary, so they are the positions 0, 1, 2, ... only when that
  dictionary carried a default index; labels are taken to be integers. A row of a table
  without a \<^verbatim>\<open>movie_id\<close> column answers \<^verbatim>\<open>row.get("movie_id")\<close> with \<^verbatim>\<open>None\<close>.
\<close>

record item =
  item_label :: int
  item_title :: string
  item_movie_id :: id_value

record movies_table =
  has_title_column :: bool
  has_movie_id_column :: bool
  rows :: "item list"

text \<open>
  A similarity score is a float: a number, taken from any linearly ordered type since
  the code only compares scores, or NaN, which the pickled matrix may hold and which is
  neither less than nor equal to anything.
\<close>

datatype 's score = Num 's | NaN

text \<open>\<^verbatim>\<open>a < b\<close> on floats.\<close>

fun float_lt :: "'s::linorder score \<Rightarrow> 's score \<Rightarrow> bool" where
  "float_lt (Num a) (Num b) = (a < b)"
| "float_lt a b = False"

text \<open>The matrix returned by \<^verbatim>\<open>load_similarity\<close>, row by row.\<close>

type_synonym 's similarity = "'s score list list"

text \<open>
  \<^verbatim>\<open>movies.index[movies["title"] == movie_title].tolist()\<close>: the index labels of the
  rows with that title, in row order.
\<close>

definition find_matches :: "movies_table \<Rightarrow> string \<Rightarrow> int list" where
  "find_matches movies movie_title =
     map item_label (filter (\<lambda>row. item_title row = movie_title) (rows movies))"

text \<open>
  \<^verbatim>\<open>similarity[movie_index]\<close> inside \<^verbatim>\<open>try\<close>: a negative index counts from the end,
  and \<^verbatim>\<open>None\<close> is the caught \<^verbatim>\<open>IndexError\<close>.
\<close>

definition similarity_row :: "'a list list \<Rightarrow> int \<Rightarrow> 'a list option" where
  "similarity_row similarity movie_index =
     (let n = int (length similarity) in
      if 0 \<le> movie_index \<and> movie_index < n then Some (similarity ! nat movie_index)
      else if - n \<le> movie_index \<and> movie_index < 0 then Some (similarity ! nat (movie_index + n))
      else None)"

text \<open>
  \<^verbatim>\<open>list.sort\<close>, which \<^verbatim>\<open>sorted\<close> calls, as CPython (to version 3.12) runs it on a
  list of fewer than 64 elements, comparing with \<^verbatim>\<open><\<close> only: it measures the run the
  list starts with, which either never steps down or steps down at every element (then
  it is reversed), and inserts each remaining element into the sorted front at the
  place a bisection finds. A longer list is sorted in such pieces, which are then
  merged; when \<^verbatim>\<open><\<close> is a total order of the keys the result is the one stable sort
  of the list either way, so the definition gives the result for every list without
  NaN, and for the lists with NaN that are shorter than 64.
\<close>

fun asc_run :: "('a \<Rightarrow> 'a \<Rightarrow> bool) \<Rightarrow> 'a \<Rightarrow> 'a list \<Rightarrow> nat" where
  "asc_run lt prev [] = 0"
| "asc_run lt prev (x # xs) = (if lt x prev then 0 else Suc (asc_run lt x xs))"

fun desc_run :: "('a \<Rightarrow> 'a \<Rightarrow> bool) \<Rightarrow> 'a \<Rightarrow> 'a list \<Rightarrow> nat" where
  "desc_run lt prev [] = 0"
| "desc_run lt prev (x # xs) = (if lt x prev then Suc (desc_run lt x xs) else 0)"

text \<open>\<^verbatim>\<open>count_run\<close>: the length of the first run, and whether it is descending.\<close>

fun count_run :: "('a \<Rightarrow> 'a \<Rightarrow> bool) \<Rightarrow> 'a list \<Rightarrow> nat \<times> bool" where
  "count_run lt [] = (0, False)"
| "count_run lt [x] = (1, False)"
| "count_run lt (x # y # rest) =
     (if lt y x then (Suc (Suc (desc_run lt y rest)), True)
      else (Suc (Suc (asc_run lt y rest)), False))"

text \<open>The bisection of \<^verbatim>\<open>binarysort\<close>: where in \<open>a[l:r]\<close> the pivot belongs.\<close>

function bisect :: "('a \<Rightarrow> 'a \<Rightarrow> bool) \<Rightarrow> 'a \<Rightarrow> 'a list \<Rightarrow> nat \<Rightarrow> nat \<Rightarrow> nat" where
  "bisect lt pivot a l r =
     (if l < r
      then (if lt pivot (a ! (l + (r - l) div 2))
            then bisect lt pivot a l (l + (r - l) div 2)
            else bisect lt pivot a (Suc (l + (r - l) div 2)) r)
      else l)"
  by pat_completeness auto
termination
  by (relation "measure (\<lambda>(lt, pivot, a, l, r). r - l)") auto

declare bisect.simps [simp del]

fun binarysort :: "('a \<Rightarrow> 'a \<Rightarrow> bool) \<Rightarrow> 'a list \<Rightarrow> 'a list \<Rightarrow> 'a list" where
  "binarysort lt front [] = front"
| "binarysort lt front (pivot # rest) =
     (let l = bisect lt pivot front 0 (length front)
      in binarysort lt (take l front @ pivot # drop l front) rest)"

definition list_sort :: "('a \<Rightarrow> 'a \<Rightarrow> bool) \<Rightarrow> 'a list \<Rightarrow> 'a list" where
  "list_sort lt xs =
     (if length xs < 2 then xs
      else (case count_run lt xs of
              (n, descending) \<Rightarrow>
                binarysort lt (if descending then rev (take n xs) else take n xs) (drop n xs)))"

text \<open>
  \<^verbatim>\<open>sorted(xs, key=key, reverse=True)\<close> on float keys: the list is reversed, sorted
  by its keys, and reversed again.
\<close>

definition py_sorted_reverse :: "('a \<Rightarrow> 's::linorder score) \<Rightarrow> 'a list \<Rightarrow> 'a list" where
  "py_sorted_reverse key xs = rev (list_sort (\<lambda>a b. float_lt (key a) (key b)) (rev xs))"

text \<open>A slice bound as Python adjusts it to a list of length \<open>n\<close>.\<close>

definition slice_bound :: "int \<Rightarrow> int \<Rightarrow> int" where
  "slice_bound n i = (if i < 0 then max 0 (i + n) else min i n)"

text \<open>\<^verbatim>\<open>xs[start : stop]\<close>\<close>

definition py_slice :: "'a list \<Rightarrow> int \<Rightarrow> int \<Rightarrow> 'a list" where
  "py_slice xs start stop =
     (let n = int (length xs); lo = slice_bound n start; hi = slice_bound n stop
      in take (nat (hi - lo)) (drop (nat lo) xs))"

definition scored :: "'s::linorder score list \<Rightarrow> (nat \<times> 's score) list" where
  "scored distances = py_sorted_reverse snd (enumerate 0 distances)"

definition candidates :: "'s::linorder score list \<Rightarrow> int \<Rightarrow> (nat \<times> 's score) list" where
  "candidates distances top_n = py_slice (scored distances) 1 (top_n + 1)"

definition row_get_movie_id :: "movies_table \<Rightarrow> item \<Rightarrow> id_value" where
  "row_get_movie_id movies row = (if has_movie_id_column movies then item_movie_id row else IdNone)"

text \<open>
  The loop over the candidates. \<^verbatim>\<open>movies.iloc[idx]\<close> reads the row at position
  \<open>idx\<close> and raises \<^verbatim>\<open>IndexError\<close> past the last row; \<^verbatim>\<open>fetch_poster\<close> is called with
  its default of three retries, and an exception it lets escape ends the loop.
\<close>

fun recs_loop :: "movies_table \<Rightarrow> (nat \<times> 'c) list \<Rightarrow> (string \<times> path option) list \<Rightarrow> world
    \<Rightarrow> (py_error + (string \<times> path option) list) \<times> world" where
  "recs_loop movies [] recs w = (Inr recs, w)"
| "recs_loop movies ((idx, score) # rest) recs w =
     (if idx < length (rows movies)
      then (let row = rows movies ! idx;
                mid = row_get_movie_id movies row
            in case (if mid \<noteq> IdNone then fetch_poster mid 3 w else (Inr None, w)) of
                 (Inl e, w') \<Rightarrow> (Inl e, w')
               | (Inr poster, w') \<Rightarrow> recs_loop movies rest (recs @ [(item_title row, poster)]) w')
      else (Inl IndexError, w))"

definition recommend :: "movies_table \<Rightarrow> 's::linorder similarity \<Rightarrow> string \<Rightarrow> int \<Rightarrow> world
    \<Rightarrow> (py_error + (string \<times> path option) list) \<times> world" where
  "recommend movies similarity movie_title top_n w =
     (if \<not> has_title_column movies then (Inr [], w)
      else case find_matches movies movie_title of
             [] \<Rightarrow> (Inr [], w)
           | movie_index # _ \<Rightarrow>
               (case similarity_row similarity movie_index of
                  None \<Rightarrow> (Inr [], w)
                | Some distances \<Rightarrow> recs_loop movies (candidates distances top_n) [] w))"

section \<open>Notions used to state the properties\<close>

text \<open>What one pass through the loop body may do to the world.\<close>

definition attempt_effect :: "id_value \<Rightarrow> string \<Rightarrow> world \<Rightarrow> attempt_result \<Rightarrow> world \<Rightarrow> bool" where
  "attempt_effect i k w r w' =
     (TMDB_API_KEY w' = TMDB_API_KEY w \<and> disk w' = disk w \<and> provider w' = provider w
      \<and> slept w' = slept w
      \<and> (\<exists>ext. http_log w' = http_log w @ MovieUrl i k # ext \<and> (\<forall>u \<in> set ext. \<exists>s. u = ImageUrl s))
      \<and> (case r of
            Returned (Some p) \<Rightarrow> p = PosterPath i \<and> writable w p \<and> (\<exists>c. files w' = (files w)(p \<mapsto> c))
          | Returned None \<Rightarrow> files w' = files (write_fail_marker i w)
          | Raised e \<Rightarrow> files w' = files w \<or> (\<exists>c. files w' = (files w)(PosterPath i \<mapsto> c))
          | RequestFailed \<Rightarrow> files w' = files w))"

text \<open>What a whole call of \<^verbatim>\<open>fetch_poster\<close> for the identifier \<open>i\<close> may do to the world.\<close>

definition only_requests_for :: "id_value \<Rightarrow> url list \<Rightarrow> bool" where
  "only_requests_for i ext = (\<forall>u \<in> set ext. (\<exists>s. u = ImageUrl s) \<or> (\<exists>k. u = MovieUrl i k))"

definition same_environment :: "world \<Rightarrow> world \<Rightarrow> bool" where
  "same_environment w w' =
     (TMDB_API_KEY w' = TMDB_API_KEY w \<and> disk w' = disk w \<and> provider w' = provider w)"

definition fetch_effect :: "id_value \<Rightarrow> world \<Rightarrow> (py_error + path option) \<Rightarrow> world \<Rightarrow> bool" where
  "fetch_effect i w res w' =
     (same_environment w w'
      \<and> (\<exists>ext. http_log w' = http_log w @ ext \<and> only_requests_for i ext)
      \<and> (case res of
            Inr (Some p) \<Rightarrow> p = PosterPath i \<and> (\<exists>c. files w' = (files w)(p \<mapsto> c))
          | Inr None \<Rightarrow> files w' = files w \<or> files w' = files (write_fail_marker i w)
          | Inl e \<Rightarrow> files w' = files w \<or> (\<exists>c. files w' = (files w)(PosterPath i \<mapsto> c))))"

text \<open>
  Concrete worlds: an empty cache directory on a writable disk, a provider that cannot
  be reached, and either no credential or the credential \<open>''k''\<close>.
\<close>

definition offline_world :: world where
  "offline_world =
     \<lparr>TMDB_API_KEY = None, files = Map.empty, disk = (\<lambda>p. WriteOk),
      provider = (\<lambda>t u. RequestException), http_log = [], slept = 0\<rparr>"

definition keyed_world :: world where
  "keyed_world = offline_world\<lparr>TMDB_API_KEY := Some ''k''\<rparr>"

text \<open>
  The record of an identifier in the cache directory, read off the two files: the
  states of the specification, and the state in which both files exist.
\<close>

datatype asset_state = Absent | Cached | PermanentlyUnavailable | Corrupted

definition asset_record :: "world \<Rightarrow> id_value \<Rightarrow> asset_state" where
  "asset_record w i =
     (if path_exists w (poster_path i)
      then (if has_fail_marker i w then Corrupted else Cached)
      else (if has_fail_marker i w then PermanentlyUnavailable else Absent))"

text \<open>
  A cached blob belongs to a valid identifier and has no fail marker beside it. This
  holds of the empty directory, and every call keeps it.
\<close>

definition store_consistent :: "world \<Rightarrow> id_value \<Rightarrow> bool" where
  "store_consistent w i =
     (path_exists w (poster_path i)
        \<longrightarrow> is_valid_movie_id i = Inr True \<and> \<not> has_fail_marker i w)"

text \<open>
  What happens to a world over time: calls of \<^verbatim>\<open>fetch_poster\<close>, and changes of the
  environment between them (credential, file permissions, provider), which touch
  neither the files nor the request log.
\<close>

datatype event =
    Fetch id_value int
  | Reconfigure "string option" "path \<Rightarrow> write_outcome" "nat \<Rightarrow> url \<Rightarrow> http_result"

fun run :: "event list \<Rightarrow> world \<Rightarrow> world" where
  "run [] w = w"
| "run (Fetch i r # es) w = run es (snd (fetch_poster i r w))"
| "run (Reconfigure k wr p # es) w = run es (w\<lparr>TMDB_API_KEY := k, disk := wr, provider := p\<rparr>)"

text \<open>A provider that serves the same poster to every request, and one that knows no movie.\<close>

definition healthy_world :: world where
  "healthy_world = keyed_world\<lparr>provider := (\<lambda>t u. Response
     \<lparr>status_code = 200, json_body = JsonObject (PosterStr ''/p.jpg''), content = ''img''\<rparr>)\<rparr>"

definition not_found_world :: world where
  "not_found_world = keyed_world\<lparr>provider := (\<lambda>t u. Response
     \<lparr>status_code = 404, json_body = JsonFalsy, content = []\<rparr>)\<rparr>"

text \<open>
  A reply that sends the loop body into its \<^verbatim>\<open>except RequestException\<close> clause: the
  request raised, or \<^verbatim>\<open>raise_for_status\<close> raised for a status other than 404.
\<close>

definition transient_reply :: "http_result \<Rightarrow> bool" where
  "transient_reply reply =
     (case reply of
        RequestException \<Rightarrow> True
      | Response resp \<Rightarrow> status_code resp \<noteq> 404 \<and> raises_for_status resp)"

text \<open>
  An attempt started when \<open>t\<close> requests have been made fails transiently: the metadata
  request gets a transient reply or an undecodable body, or it names a poster and the
  image request that follows gets a transient reply.
\<close>

definition attempt_fails_transiently :: "(nat \<Rightarrow> url \<Rightarrow> http_result) \<Rightarrow> nat \<Rightarrow> id_value \<Rightarrow> string \<Rightarrow> bool" where
  "attempt_fails_transiently prov t i k =
     (case prov t (MovieUrl i k) of
        RequestException \<Rightarrow> True
      | Response resp \<Rightarrow>
          status_code resp \<noteq> 404 \<and>
          (raises_for_status resp \<or>
           (case json_body resp of
              JsonInvalid \<Rightarrow> True
            | JsonObject (PosterStr poster) \<Rightarrow>
                poster \<noteq> [] \<and> transient_reply (prov (Suc t) (ImageUrl (lstrip_slash poster)))
            | _ \<Rightarrow> False)))"

text \<open>Every attempt begins with one metadata request, so these count the attempts.\<close>

definition is_metadata_request :: "url \<Rightarrow> bool" where
  "is_metadata_request u = (case u of MovieUrl i k \<Rightarrow> True | ImageUrl s \<Rightarrow> False)"

definition attempts_in :: "url list \<Rightarrow> nat" where
  "attempts_in ext = length (filter is_metadata_request ext)"

text \<open>
  A provider that, asked when \<open>t\<close> requests have been made, answers the metadata request
  with a poster locator and the image request that follows with the bytes \<open>c\<close>.
\<close>

definition serves_poster :: "(nat \<Rightarrow> url \<Rightarrow> http_result) \<Rightarrow> nat \<Rightarrow> id_value \<Rightarrow> string \<Rightarrow> string \<Rightarrow> bool" where
  "serves_poster prov t i k c =
     (case prov t (MovieUrl i k) of
        RequestException \<Rightarrow> False
      | Response resp \<Rightarrow>
          status_code resp = 200 \<and>
          (case json_body resp of
             JsonObject (PosterStr poster) \<Rightarrow>
               poster \<noteq> [] \<and>
               (case prov (Suc t) (ImageUrl (lstrip_slash poster)) of
                  RequestException \<Rightarrow> False
                | Response img_resp \<Rightarrow> status_code img_resp = 200 \<and> content img_resp = c)
           | _ \<Rightarrow> False))"

text \<open>A provider that answers every request with a server error.\<close>

definition failing_world :: world where
  "failing_world = keyed_world\<lparr>provider := (\<lambda>t u. Response
     \<lparr>status_code = 503, json_body = JsonInvalid, content = []\<rparr>)\<rparr>"

text \<open>
  A healthy provider and a cache directory in which no file can be opened for writing;
  a healthy provider and a full disk, where files can be created and no byte written.
\<close>

definition read_only_world :: world where
  "read_only_world = healthy_world\<lparr>disk := (\<lambda>p. OpenFails)\<rparr>"

definition full_disk_world :: world where
  "full_disk_world = healthy_world\<lparr>disk := (\<lambda>p. WriteFails 0)\<rparr>"





text \<open>The positions of the rows with a title, in row order.\<close>

definition find_positions :: "movies_table \<Rightarrow> string \<Rightarrow> nat list" where
  "find_positions movies movie_title =
     filter (\<lambda>p. item_title (rows movies ! p) = movie_title) [0..<length (rows movies)]"

text \<open>
  The similarity row that \<^verbatim>\<open>recommend\<close> ranks for a title, if it gets that far: the
  table has a title column, the title occurs, and the matrix has a row at the index
  label of its first occurrence.
\<close>

definition query_row :: "movies_table \<Rightarrow> 'a list list \<Rightarrow> string \<Rightarrow> 'a list option" where
  "query_row movies similarity movie_title =
     (if has_title_column movies
      then (case find_matches movies movie_title of
              [] \<Rightarrow> None
            | movie_index # others \<Rightarrow> similarity_row similarity movie_index)
      else None)"

text \<open>
  The number of entries of \<^verbatim>\<open>scored[1 : top_n + 1]\<close> for a row of the given length.
\<close>

definition slice_count :: "nat \<Rightarrow> int \<Rightarrow> int" where
  "slice_count row_length top_n =
     (if - 1 \<le> top_n then max 0 (min top_n (int row_length - 1))
      else max 0 (int row_length + top_n))"


text \<open>
  A catalog of four movies under the default labels; a matrix whose diagonal is the
  maximum of every row, one where it is not, and one with a NaN.
\<close>

definition small_catalog :: movies_table where
  "small_catalog =
     \<lparr>has_title_column = True, has_movie_id_column = True,
      rows = [\<lparr>item_label = 0, item_title = ''A'', item_movie_id = IdInt 1\<rparr>,
              \<lparr>item_label = 1, item_title = ''B'', item_movie_id = IdInt 2\<rparr>,
              \<lparr>item_label = 2, item_title = ''C'', item_movie_id = IdInt 3\<rparr>,
              \<lparr>item_label = 3, item_title = ''D'', item_movie_id = IdInt 4\<rparr>]\<rparr>"

definition diagonal_similarity :: "int similarity" where
  "diagonal_similarity =
     [[Num 9, Num 2, Num 2, Num 0], [Num 2, Num 9, Num 1, Num 3],
      [Num 2, Num 1, Num 9, Num 4], [Num 0, Num 3, Num 4, Num 9]]"

definition malformed_similarity :: "int similarity" where
  "malformed_similarity =
     [[Num 1, Num 2, Num 2, Num 0], [Num 2, Num 9, Num 1, Num 3],
      [Num 2, Num 1, Num 9, Num 4], [Num 0, Num 3, Num 4, Num 9]]"

definition nan_similarity :: "int similarity" where
  "nan_similarity =
     [[Num 9, Num 2, NaN, Num 8], [Num 2, Num 9, Num 1, Num 3],
      [NaN, Num 1, Num 9, Num 4], [Num 8, Num 3, Num 4, Num 9]]"

text \<open>
  A catalog of three movies whose labels skip 1, as a table keeps them after a row was
  dropped, and a three by three matrix with a maximal diagonal.
\<close>

definition gapped_catalog :: movies_table where
  "gapped_catalog =
     \<lparr>has_title_column = True, has_movie_id_column = True,
      rows = [\<lparr>item_label = 0, item_title = ''A'', item_movie_id = IdInt 1\<rparr>,
              \<lparr>item_label = 2, item_title = ''B'', item_movie_id = IdInt 2\<rparr>,
              \<lparr>item_label = 3, item_title = ''C'', item_movie_id = IdInt 3\<rparr>]\<rparr>"

definition three_similarity :: "int similarity" where
  "three_similarity = [[Num 9, Num 1, Num 2], [Num 1, Num 9, Num 3], [Num 2, Num 3, Num 9]]"

section \<open>How a call changes the world\<close>

lemma write_fail_marker_fields:
  "TMDB_API_KEY (write_fail_marker i w) = TMDB_API_KEY w"
  "disk (write_fail_marker i w) = disk w"
  "provider (write_fail_marker i w) = provider w"
  "http_log (write_fail_marker i w) = http_log w"
  "slept (write_fail_marker i w) = slept w"
  by (simp_all add: write_fail_marker_def Let_def)

lemma write_fail_marker_files:
  "files (write_fail_marker i w) p =
     (if p = FailMarkerPath i \<and> openable w p
      then Some (case files w p of None \<Rightarrow> [] | Some c \<Rightarrow> c) else files w p)"
  by (auto simp: write_fail_marker_def Let_def fail_marker_path_def)

lemma write_fail_marker_idem:
  "files w (FailMarkerPath i) \<noteq> None \<Longrightarrow> write_fail_marker i w = w"
  by (auto simp: write_fail_marker_def Let_def fail_marker_path_def fun_upd_idem_iff)

lemma fetch_attempt_effect:
  "fetch_attempt i k w = (r, w') \<Longrightarrow> attempt_effect i k w r w'"
  unfolding fetch_attempt_def fetch_image_def save_image_def requests_get_def attempt_effect_def
  by (auto simp: Let_def poster_path_def write_fail_marker_def fail_marker_path_def
      writable_def openable_def
      split: http_result.splits if_splits json_value.splits poster_field.splits prod.splits
        write_outcome.splits)


lemma write_fail_marker_cong:
  "files w1 = files w \<Longrightarrow> disk w1 = disk w
   \<Longrightarrow> files (write_fail_marker i w1) = files (write_fail_marker i w)"
  by (simp add: write_fail_marker_def Let_def openable_def)

lemma fetch_loop_effect:
  "fetch_loop i k r as w = (res, w') \<Longrightarrow> fetch_effect i w res w'"
proof (induction as arbitrary: w)
  case Nil
  then show ?case
    by (auto simp: fetch_effect_def same_environment_def only_requests_for_def)
next
  case (Cons a as)
  obtain ar w1 where att: "fetch_attempt i k w = (ar, w1)"
    by (cases "fetch_attempt i k w")
  from fetch_attempt_effect [OF att] have eff: "attempt_effect i k w ar w1" .
  show ?case
  proof (cases ar)
    case (Returned p)
    with Cons.prems att eff show ?thesis
      by (auto simp: fetch_effect_def attempt_effect_def same_environment_def
          only_requests_for_def split: option.splits)
  next
    case (Raised e)
    with Cons.prems att eff show ?thesis
      by (auto simp: fetch_effect_def attempt_effect_def same_environment_def
          only_requests_for_def)
  next
    case RequestFailed
    show ?thesis
    proof (cases "int a < r - 1")
      case False
      with RequestFailed Cons.prems att eff show ?thesis
        by (auto simp: fetch_effect_def attempt_effect_def same_environment_def
            only_requests_for_def)
    next
      case True
      with RequestFailed Cons.prems att
      have rest: "fetch_loop i k r as (sleep 1 w1) = (res, w')"
        by simp
      from Cons.IH [OF rest] have ih: "fetch_effect i (sleep 1 w1) res w'" .
      from eff RequestFailed have same: "files w1 = files w" "disk w1 = disk w"
        by (simp_all add: attempt_effect_def)
      have mark: "files (write_fail_marker i (sleep 1 w1)) = files (write_fail_marker i w)"
        by (rule write_fail_marker_cong) (simp_all add: sleep_def same)
      from eff obtain ext1 where ext1: "http_log w1 = http_log w @ ext1" "only_requests_for i ext1"
        by (auto simp: attempt_effect_def only_requests_for_def)
      from ih obtain ext2 where ext2: "http_log w' = http_log w1 @ ext2" "only_requests_for i ext2"
        by (auto simp: fetch_effect_def sleep_def)
      have log: "\<exists>ext. http_log w' = http_log w @ ext \<and> only_requests_for i ext"
        using ext1 ext2 by (auto simp: only_requests_for_def)
      have env: "same_environment w w'"
        using ih eff by (simp add: fetch_effect_def attempt_effect_def same_environment_def sleep_def)
      have fls: "(case res of
            Inr (Some p) \<Rightarrow> p = PosterPath i \<and> (\<exists>c. files w' = (files w)(p \<mapsto> c))
          | Inr None \<Rightarrow> files w' = files w \<or> files w' = files (write_fail_marker i w)
          | Inl e \<Rightarrow> files w' = files w \<or> (\<exists>c. files w' = (files w)(PosterPath i \<mapsto> c)))"
        using ih mark same by (auto simp: fetch_effect_def sleep_def split: sum.splits option.splits)
      from env log fls show ?thesis
        unfolding fetch_effect_def by blast
    qed
  qed
qed


lemma fetch_poster_no_key:
  "TMDB_API_KEY w = None \<or> TMDB_API_KEY w = Some [] \<Longrightarrow> fetch_poster i r w = (Inr None, w)"
  by (auto simp: fetch_poster_def)

lemma fetch_poster_invalid:
  "TMDB_API_KEY w = Some k \<Longrightarrow> k \<noteq> [] \<Longrightarrow> is_valid_movie_id i = Inr False
   \<Longrightarrow> fetch_poster i r w = (Inr None, write_fail_marker i w)"
  by (simp add: fetch_poster_def)

lemma fetch_poster_cached:
  "TMDB_API_KEY w = Some k \<Longrightarrow> k \<noteq> [] \<Longrightarrow> is_valid_movie_id i = Inr True
   \<Longrightarrow> files w (PosterPath i) \<noteq> None
   \<Longrightarrow> fetch_poster i r w = (Inr (Some (PosterPath i)), w)"
  by (simp add: fetch_poster_def path_exists_def poster_path_def)

lemma fetch_poster_marked:
  "TMDB_API_KEY w = Some k \<Longrightarrow> k \<noteq> [] \<Longrightarrow> is_valid_movie_id i = Inr True
   \<Longrightarrow> files w (PosterPath i) = None \<Longrightarrow> files w (FailMarkerPath i) \<noteq> None
   \<Longrightarrow> fetch_poster i r w = (Inr None, w)"
  by (simp add: fetch_poster_def path_exists_def poster_path_def has_fail_marker_def
      fail_marker_path_def)

lemma fetch_poster_miss:
  "TMDB_API_KEY w = Some k \<Longrightarrow> k \<noteq> [] \<Longrightarrow> is_valid_movie_id i = Inr True
   \<Longrightarrow> files w (PosterPath i) = None \<Longrightarrow> files w (FailMarkerPath i) = None
   \<Longrightarrow> fetch_poster i r w = fetch_loop i k r [0..<nat r] w"
  by (simp add: fetch_poster_def path_exists_def poster_path_def has_fail_marker_def
      fail_marker_path_def)

lemma fetch_poster_raises:
  "TMDB_API_KEY w = Some k \<Longrightarrow> k \<noteq> [] \<Longrightarrow> is_valid_movie_id i = Inl e
   \<Longrightarrow> fetch_poster i r w = (Inl e, w)"
  by (simp add: fetch_poster_def)

lemma validity_cases:
  obtains (raises) e where "is_valid_movie_id i = Inl e"
  | (invalid) "is_valid_movie_id i = Inr False"
  | (valid) "is_valid_movie_id i = Inr True"
  by (cases "is_valid_movie_id i") auto

lemma fetch_effect_refl_None: "fetch_effect i w (Inr None) w"
  by (simp add: fetch_effect_def same_environment_def only_requests_for_def)

lemma fetch_poster_effect:
  assumes "fetch_poster i r w = (res, w')"
  shows "fetch_effect i w res w'"
proof (cases "TMDB_API_KEY w = None \<or> TMDB_API_KEY w = Some []")
  case True
  from fetch_poster_no_key [OF True, of i r] assms show ?thesis
    by (simp add: fetch_effect_refl_None)
next
  case False
  then obtain k where k: "TMDB_API_KEY w = Some k" "k \<noteq> []"
    by auto
  show ?thesis
  proof (cases i rule: validity_cases)
    case (raises e)
    from fetch_poster_raises [OF k raises, of r] assms show ?thesis
      by (auto simp: fetch_effect_def same_environment_def only_requests_for_def)
  next
    case invalid
    from fetch_poster_invalid [OF k invalid, of r] assms show ?thesis
      by (auto simp: fetch_effect_def same_environment_def only_requests_for_def
          write_fail_marker_fields)
  next
    case valid
    show ?thesis
    proof (cases "files w (PosterPath i)")
      case (Some c)
      then have "files w = (files w)(PosterPath i \<mapsto> c)"
        by (simp add: fun_upd_idem)
      with fetch_poster_cached [OF k valid, of r] Some assms show ?thesis
        by (auto simp: fetch_effect_def same_environment_def only_requests_for_def)
    next
      case None
      show ?thesis
      proof (cases "files w (FailMarkerPath i)")
        case (Some c)
        with fetch_poster_marked [OF k valid None, of r] assms show ?thesis
          by (simp add: fetch_effect_refl_None)
      next
        case no_marker: None
        from fetch_poster_miss [OF k valid None no_marker, of r] assms show ?thesis
          by (simp add: fetch_loop_effect)
      qed
    qed
  qed
qed

section \<open>The record of an identifier across calls\<close>

lemma fetch_loop_from_absent:
  assumes "fetch_loop i k r as w = (res, w')"
    and "files w (PosterPath i) = None" and "files w (FailMarkerPath i) = None"
  shows "(res = Inr (Some (PosterPath i)) \<and> files w' (PosterPath i) \<noteq> None
            \<and> files w' (FailMarkerPath i) = None)
       \<or> (res = Inr None \<and> files w' (PosterPath i) = None)
       \<or> ((\<exists>e. res = Inl e) \<and> files w' (FailMarkerPath i) = None)"
  using fetch_loop_effect [OF assms(1)] assms(2,3)
  by (cases res)
    (auto simp: fetch_effect_def write_fail_marker_files split: option.splits if_splits)

lemmas fetch_defs =
  fetch_poster_def is_valid_movie_id_def path_exists_def poster_path_def has_fail_marker_def
  fail_marker_path_def fetch_attempt_def requests_get_def raises_for_status_def fetch_image_def
  save_image_def write_fail_marker_def lstrip_slash_def sleep_def Let_def upt_rec
  openable_def writable_def

lemmas world_defs = offline_world_def keyed_world_def healthy_world_def not_found_world_def
  read_only_world_def full_disk_world_def

lemma healthy_first_call:
  "fetch_poster (IdInt 42) 3 healthy_world =
     (Inr (Some (PosterPath (IdInt 42))),
      healthy_world\<lparr>files := [PosterPath (IdInt 42) \<mapsto> ''img''],
        http_log := [MovieUrl (IdInt 42) ''k'', ImageUrl ''p.jpg'']\<rparr>)"
  by (simp add: world_defs fetch_defs)

lemma not_found_first_call:
  "fetch_poster (IdInt 42) 3 not_found_world =
     (Inr None,
      not_found_world\<lparr>files := [FailMarkerPath (IdInt 42) \<mapsto> []],
        http_log := [MovieUrl (IdInt 42) ''k'']\<rparr>)"
  by (simp add: world_defs fetch_defs)

lemma asset_record_files:
  "files w' (PosterPath i) = files w (PosterPath i)
   \<Longrightarrow> files w' (FailMarkerPath i) = files w (FailMarkerPath i)
   \<Longrightarrow> asset_record w' i = asset_record w i \<and> store_consistent w' i = store_consistent w i"
  by (simp add: asset_record_def store_consistent_def path_exists_def has_fail_marker_def
      poster_path_def fail_marker_path_def)

text \<open>A call for another identifier leaves the record alone.\<close>

lemma fetch_poster_other_id:
  assumes "fetch_poster j r w = (res, w')" and "j \<noteq> i"
  shows "files w' (PosterPath i) = files w (PosterPath i)
     \<and> files w' (FailMarkerPath i) = files w (FailMarkerPath i)
     \<and> (\<exists>ext. http_log w' = http_log w @ ext \<and> (\<forall>k. MovieUrl i k \<notin> set ext))"
proof -
  from fetch_poster_effect [OF assms(1)] have eff: "fetch_effect j w res w'" .
  then obtain ext where ext: "http_log w' = http_log w @ ext" "only_requests_for j ext"
    by (auto simp: fetch_effect_def)
  from ext(2) assms(2) have "\<forall>k. MovieUrl i k \<notin> set ext"
    by (auto simp: only_requests_for_def)
  moreover from eff assms(2)
  have "files w' (PosterPath i) = files w (PosterPath i)
     \<and> files w' (FailMarkerPath i) = files w (FailMarkerPath i)"
    by (cases res) (auto simp: fetch_effect_def write_fail_marker_files split: option.splits)
  ultimately show ?thesis
    using ext(1) by blast
qed

text \<open>A call for an identifier whose record is terminal changes nothing at all.\<close>

lemma fetch_poster_terminal:
  assumes "store_consistent w i" and "asset_record w i \<noteq> Absent"
  shows "fetch_poster i r w = (fst (fetch_poster i r w), w)"
proof (cases "TMDB_API_KEY w = None \<or> TMDB_API_KEY w = Some []")
  case True
  from fetch_poster_no_key [OF True] show ?thesis by simp
next
  case False
  then obtain k where k: "TMDB_API_KEY w = Some k" "k \<noteq> []"
    by auto
  show ?thesis
  proof (cases "files w (PosterPath i) = None")
    case no_blob: True
    with assms(2) have marker: "files w (FailMarkerPath i) \<noteq> None"
      by (auto simp: asset_record_def path_exists_def has_fail_marker_def poster_path_def
          fail_marker_path_def split: if_splits)
    show ?thesis
    proof (cases i rule: validity_cases)
      case valid
      from fetch_poster_marked [OF k valid no_blob marker] show ?thesis by simp
    next
      case invalid
      from fetch_poster_invalid [OF k invalid] write_fail_marker_idem [OF marker] show ?thesis
        by simp
    next
      case (raises e)
      from fetch_poster_raises [OF k raises] show ?thesis by simp
    qed
  next
    case blob: False
    with assms(1) have "is_valid_movie_id i = Inr True"
      by (simp add: store_consistent_def path_exists_def poster_path_def)
    from fetch_poster_cached [OF k this blob] show ?thesis by simp
  qed
qed

text \<open>A call for an identifier whose record is absent leaves it absent or makes it terminal.\<close>

lemma fetch_poster_absent:
  assumes "fetch_poster i r w = (res, w')" and "asset_record w i = Absent"
  shows "store_consistent w' i"
proof -
  from assms(2) have none: "files w (PosterPath i) = None" "files w (FailMarkerPath i) = None"
    by (auto simp: asset_record_def path_exists_def has_fail_marker_def poster_path_def
        fail_marker_path_def split: if_splits)
  show ?thesis
  proof (cases "TMDB_API_KEY w = None \<or> TMDB_API_KEY w = Some []")
    case True
    from fetch_poster_no_key [OF True, of i r] assms(1) none show ?thesis
      by (auto simp: store_consistent_def path_exists_def poster_path_def)
  next
    case False
    then obtain k where k: "TMDB_API_KEY w = Some k" "k \<noteq> []"
      by auto
    show ?thesis
    proof (cases i rule: validity_cases)
      case (raises e)
      from fetch_poster_raises [OF k raises, of r] assms(1) none show ?thesis
        by (auto simp: store_consistent_def path_exists_def poster_path_def)
    next
      case invalid
      from fetch_poster_invalid [OF k invalid, of r] assms(1) none show ?thesis
        by (auto simp: store_consistent_def path_exists_def poster_path_def
            write_fail_marker_files)
    next
      case valid
      from fetch_poster_miss [OF k valid none, of r] assms(1)
      have "fetch_loop i k r [0..<nat r] w = (res, w')" by simp
      from fetch_loop_from_absent [OF this none] valid show ?thesis
        by (auto simp: store_consistent_def path_exists_def poster_path_def has_fail_marker_def
            fail_marker_path_def)
    qed
  qed
qed

lemma run_record:
  assumes "store_consistent w i"
  shows "store_consistent (run es w) i
     \<and> (asset_record w i \<noteq> Absent \<longrightarrow>
          files (run es w) (PosterPath i) = files w (PosterPath i)
          \<and> files (run es w) (FailMarkerPath i) = files w (FailMarkerPath i)
          \<and> (\<exists>ext. http_log (run es w) = http_log w @ ext \<and> (\<forall>k. MovieUrl i k \<notin> set ext)))"
  using assms
proof (induction es arbitrary: w)
  case Nil
  then show ?case by simp
next
  case (Cons e es)
  show ?case
  proof (cases e)
    case (Reconfigure k wr p)
    let ?w1 = "w\<lparr>TMDB_API_KEY := k, disk := wr, provider := p\<rparr>"
    have same: "files ?w1 (PosterPath i) = files w (PosterPath i)"
      "files ?w1 (FailMarkerPath i) = files w (FailMarkerPath i)" "http_log ?w1 = http_log w"
      by simp_all
    from asset_record_files [OF same(1,2)] Cons.prems
    have c1: "store_consistent ?w1 i" and r1: "asset_record ?w1 i = asset_record w i"
      by simp_all
    from Cons.IH [OF c1] r1 Reconfigure show ?thesis
      by simp
  next
    case (Fetch j r)
    obtain res w1 where call: "fetch_poster j r w = (res, w1)"
      by (cases "fetch_poster j r w")
    have step: "store_consistent w1 i
       \<and> (asset_record w i \<noteq> Absent \<longrightarrow>
            files w1 (PosterPath i) = files w (PosterPath i)
            \<and> files w1 (FailMarkerPath i) = files w (FailMarkerPath i)
            \<and> (\<exists>ext. http_log w1 = http_log w @ ext \<and> (\<forall>k. MovieUrl i k \<notin> set ext)))"
    proof (cases "j = i")
      case False
      from fetch_poster_other_id [OF call False] asset_record_files [of w1 i w] Cons.prems
      show ?thesis by simp
    next
      case True
      show ?thesis
      proof (cases "asset_record w i = Absent")
        case absent: True
        from fetch_poster_absent [of i r w res w1] call True absent show ?thesis
          by simp
      next
        case False
        from fetch_poster_terminal [OF Cons.prems False, of r] call True have "w1 = w"
          by simp
        with Cons.prems show ?thesis by simp
      qed
    qed
    then have c1: "store_consistent w1 i" by simp
    note ih = Cons.IH [OF c1]
    show ?thesis
    proof (cases "asset_record w i = Absent")
      case True
      with ih Fetch call show ?thesis by simp
    next
      case False
      with step have keep: "files w1 (PosterPath i) = files w (PosterPath i)"
        "files w1 (FailMarkerPath i) = files w (FailMarkerPath i)"
        and "\<exists>ext. http_log w1 = http_log w @ ext \<and> (\<forall>k. MovieUrl i k \<notin> set ext)"
        by simp_all
      then obtain ext1 where ext1: "http_log w1 = http_log w @ ext1" "\<forall>k. MovieUrl i k \<notin> set ext1"
        by blast
      from asset_record_files [OF keep] False have "asset_record w1 i \<noteq> Absent"
        by simp
      with ih obtain ext2 where rest:
        "files (run es w1) (PosterPath i) = files w1 (PosterPath i)"
        "files (run es w1) (FailMarkerPath i) = files w1 (FailMarkerPath i)"
        "http_log (run es w1) = http_log w1 @ ext2" "\<forall>k. MovieUrl i k \<notin> set ext2"
        by blast
      have "http_log (run es w1) = http_log w @ (ext1 @ ext2) \<and> (\<forall>k. MovieUrl i k \<notin> set (ext1 @ ext2))"
        using ext1 rest(3,4) by simp
      then have "\<exists>ext. http_log (run es w1) = http_log w @ ext \<and> (\<forall>k. MovieUrl i k \<notin> set ext)"
        by blast
      with ih rest(1,2) keep Fetch call show ?thesis
        by simp
    qed
  qed
qed

lemma run_append: "run (es1 @ es2) w = run es2 (run es1 w)"
proof (induction es1 arbitrary: w)
  case Nil
  show ?case by simp
next
  case (Cons e es1)
  then show ?case by (cases e) simp_all
qed

lemma run_healthy:
  "run [Fetch (IdInt 42) 3] healthy_world =
     healthy_world\<lparr>files := [PosterPath (IdInt 42) \<mapsto> ''img''],
        http_log := [MovieUrl (IdInt 42) ''k'', ImageUrl ''p.jpg'']\<rparr>"
  by (simp add: healthy_first_call)

section \<open>Attempts that fail transiently, attempts that are served\<close>

lemma fetch_image_transient:
  assumes "transient_reply (provider w (length (http_log w)) (ImageUrl (lstrip_slash p)))"
  shows "fetch_image i p w = (RequestFailed, w\<lparr>http_log := http_log w @ [ImageUrl (lstrip_slash p)]\<rparr>)"
  using assms
  by (cases "provider w (length (http_log w)) (ImageUrl (lstrip_slash p))")
    (simp_all add: fetch_image_def requests_get_def transient_reply_def)

lemma attempts_in_simps:
  "attempts_in [] = 0"
  "attempts_in (MovieUrl i k # ext) = Suc (attempts_in ext)"
  "attempts_in (ImageUrl s # ext) = attempts_in ext"
  "attempts_in (ext1 @ ext2) = attempts_in ext1 + attempts_in ext2"
  by (simp_all add: attempts_in_def is_metadata_request_def)

lemma fetch_attempt_transient:
  assumes "attempt_fails_transiently (provider w) (length (http_log w)) i k"
  shows "\<exists>ext. fetch_attempt i k w = (RequestFailed, w\<lparr>http_log := http_log w @ ext\<rparr>)
     \<and> attempts_in ext = 1"
proof (cases "provider w (length (http_log w)) (MovieUrl i k)")
  case RequestException
  then have "fetch_attempt i k w = (RequestFailed, w\<lparr>http_log := http_log w @ [MovieUrl i k]\<rparr>)"
    by (simp add: fetch_attempt_def requests_get_def)
  moreover have "attempts_in [MovieUrl i k] = 1"
    by (simp add: attempts_in_simps)
  ultimately show ?thesis by blast
next
  case (Response resp)
  let ?w1 = "w\<lparr>http_log := http_log w @ [MovieUrl i k]\<rparr>"
  from assms Response have not404: "status_code resp \<noteq> 404"
    and rest: "raises_for_status resp \<or>
           (case json_body resp of
              JsonInvalid \<Rightarrow> True
            | JsonObject (PosterStr poster) \<Rightarrow>
                poster \<noteq> [] \<and> transient_reply (provider w (Suc (length (http_log w))) (ImageUrl (lstrip_slash poster)))
            | _ \<Rightarrow> False)"
    by (simp_all add: attempt_fails_transiently_def)
  show ?thesis
  proof (cases "raises_for_status resp")
    case True
    with Response not404
    have "fetch_attempt i k w = (RequestFailed, ?w1)"
      by (simp add: fetch_attempt_def requests_get_def)
    moreover have "attempts_in [MovieUrl i k] = 1"
      by (simp add: attempts_in_simps)
    ultimately show ?thesis by blast
  next
    case False
    show ?thesis
    proof (cases "json_body resp")
      case JsonInvalid
      with Response not404 False
      have "fetch_attempt i k w = (RequestFailed, ?w1)"
        by (simp add: fetch_attempt_def requests_get_def)
      moreover have "attempts_in [MovieUrl i k] = 1"
        by (simp add: attempts_in_simps)
      ultimately show ?thesis by blast
    next
      case JsonFalsy
      with rest False show ?thesis by simp
    next
      case JsonNonObject
      with rest False show ?thesis by simp
    next
      case (JsonObject pf)
      with rest False obtain poster where pf: "pf = PosterStr poster" "poster \<noteq> []"
        and img: "transient_reply (provider w (Suc (length (http_log w))) (ImageUrl (lstrip_slash poster)))"
        by (cases pf) simp_all
      from img have "transient_reply (provider ?w1 (length (http_log ?w1)) (ImageUrl (lstrip_slash poster)))"
        by simp
      from fetch_image_transient [OF this, of i]
      have "fetch_image i poster ?w1 =
          (RequestFailed, w\<lparr>http_log := http_log w @ [MovieUrl i k, ImageUrl (lstrip_slash poster)]\<rparr>)"
        by simp
      with Response not404 False JsonObject pf
      have "fetch_attempt i k w =
          (RequestFailed, w\<lparr>http_log := http_log w @ [MovieUrl i k, ImageUrl (lstrip_slash poster)]\<rparr>)"
        by (simp add: fetch_attempt_def requests_get_def)
      moreover have "attempts_in [MovieUrl i k, ImageUrl (lstrip_slash poster)] = 1"
        by (simp add: attempts_in_simps)
      ultimately show ?thesis by blast
    qed
  qed
qed

lemma fetch_loop_transient:
  assumes "\<forall>t. attempt_fails_transiently (provider w) t i k"
  shows "\<exists>w'. fetch_loop i k r [a..<nat r] w = (Inr None, w') \<and> files w' = files w
     \<and> same_environment w w'
     \<and> (\<exists>ext. http_log w' = http_log w @ ext \<and> attempts_in ext = nat r - a)"
  using assms
proof (induction "nat r - a" arbitrary: a w)
  case 0
  then have empty: "[a..<nat r] = []" and zero: "nat r - a = 0" by simp_all
  have "fetch_loop i k r [a..<nat r] w = (Inr None, w) \<and> files w = files w
     \<and> same_environment w w
     \<and> (\<exists>ext. http_log w = http_log w @ ext \<and> attempts_in ext = nat r - a)"
    unfolding empty zero by (simp add: same_environment_def attempts_in_simps)
  then show ?case by blast
next
  case (Suc n)
  then have lt: "a < nat r" by simp
  then have list: "[a..<nat r] = a # [Suc a..<nat r]"
    by (simp add: upt_conv_Cons)
  from Suc.prems have "attempt_fails_transiently (provider w) (length (http_log w)) i k"
    by simp
  from fetch_attempt_transient [OF this] obtain ext1
    where att: "fetch_attempt i k w = (RequestFailed, w\<lparr>http_log := http_log w @ ext1\<rparr>)"
      and one: "attempts_in ext1 = 1"
    by blast
  let ?w1 = "w\<lparr>http_log := http_log w @ ext1\<rparr>"
  show ?case
  proof (cases "int a < r - 1")
    case False
    with lt have "nat r - a = 1" by linarith
    with att list False one
    have "fetch_loop i k r [a..<nat r] w = (Inr None, w\<lparr>http_log := http_log w @ ext1\<rparr>)"
      "attempts_in ext1 = nat r - a"
      by simp_all
    then have "fetch_loop i k r [a..<nat r] w = (Inr None, w\<lparr>http_log := http_log w @ ext1\<rparr>)
       \<and> files (w\<lparr>http_log := http_log w @ ext1\<rparr>) = files w
       \<and> same_environment w (w\<lparr>http_log := http_log w @ ext1\<rparr>)
       \<and> (\<exists>ext. http_log (w\<lparr>http_log := http_log w @ ext1\<rparr>) = http_log w @ ext \<and> attempts_in ext = nat r - a)"
      by (simp add: same_environment_def)
    then show ?thesis by blast
  next
    case True
    have n: "n = nat r - Suc a" using Suc.hyps(2) by simp
    have prov: "\<forall>t. attempt_fails_transiently (provider (sleep 1 ?w1)) t i k"
      using Suc.prems by (simp add: sleep_def)
    from Suc.hyps(1) [OF n prov] obtain w' ext2 where rest:
      "fetch_loop i k r [Suc a..<nat r] (sleep 1 ?w1) = (Inr None, w')"
      "files w' = files (sleep 1 ?w1)" "same_environment (sleep 1 ?w1) w'"
      "http_log w' = http_log (sleep 1 ?w1) @ ext2" "attempts_in ext2 = nat r - Suc a"
      by blast
    have "http_log w' = http_log w @ (ext1 @ ext2)" "attempts_in (ext1 @ ext2) = nat r - a"
      using rest(4,5) one lt by (simp_all add: sleep_def attempts_in_simps)
    then have "\<exists>ext. http_log w' = http_log w @ ext \<and> attempts_in ext = nat r - a"
      by blast
    with rest(1,2,3) att list True show ?thesis
      by (simp add: sleep_def same_environment_def)
  qed
qed

lemma serves_posterD:
  assumes "serves_poster prov t i k c"
  obtains resp poster img_resp where
    "prov t (MovieUrl i k) = Response resp" "status_code resp = 200"
    "json_body resp = JsonObject (PosterStr poster)" "poster \<noteq> []"
    "prov (Suc t) (ImageUrl (lstrip_slash poster)) = Response img_resp"
    "status_code img_resp = 200" "content img_resp = c"
proof (cases "prov t (MovieUrl i k)")
  case RequestException
  with assms show ?thesis by (simp add: serves_poster_def)
next
  case (Response resp)
  with assms have st: "status_code resp = 200"
    and body: "case json_body resp of
             JsonObject (PosterStr poster) \<Rightarrow>
               poster \<noteq> [] \<and>
               (case prov (Suc t) (ImageUrl (lstrip_slash poster)) of
                  RequestException \<Rightarrow> False
                | Response img_resp \<Rightarrow> status_code img_resp = 200 \<and> content img_resp = c)
           | _ \<Rightarrow> False"
    by (simp_all add: serves_poster_def)
  from body obtain poster where js: "json_body resp = JsonObject (PosterStr poster)"
    by (cases "json_body resp"; simp split: poster_field.splits)
  with body have ne: "poster \<noteq> []"
    and img: "case prov (Suc t) (ImageUrl (lstrip_slash poster)) of
                  RequestException \<Rightarrow> False
                | Response img_resp \<Rightarrow> status_code img_resp = 200 \<and> content img_resp = c"
    by simp_all
  from img obtain img_resp where
    "prov (Suc t) (ImageUrl (lstrip_slash poster)) = Response img_resp"
    "status_code img_resp = 200" "content img_resp = c"
    by (cases "prov (Suc t) (ImageUrl (lstrip_slash poster))") simp_all
  with Response st js ne show ?thesis
    by (rule that)
qed

lemma fetch_attempt_reaches_save:
  assumes "serves_poster (provider w) (length (http_log w)) i k c"
  shows "\<exists>poster img_resp. content img_resp = c \<and>
     fetch_attempt i k w = save_image i img_resp
       (w\<lparr>http_log := http_log w @ [MovieUrl i k, ImageUrl (lstrip_slash poster)]\<rparr>)"
proof -
  from assms obtain resp poster img_resp where p:
    "provider w (length (http_log w)) (MovieUrl i k) = Response resp" "status_code resp = 200"
    "json_body resp = JsonObject (PosterStr poster)" "poster \<noteq> []"
    "provider w (Suc (length (http_log w))) (ImageUrl (lstrip_slash poster)) = Response img_resp"
    "status_code img_resp = 200" "content img_resp = c"
    by (rule serves_posterD)
  let ?w1 = "w\<lparr>http_log := http_log w @ [MovieUrl i k]\<rparr>"
  from p(5,6) have "fetch_image i poster ?w1 = save_image i img_resp
       (w\<lparr>http_log := http_log w @ [MovieUrl i k, ImageUrl (lstrip_slash poster)]\<rparr>)"
    by (simp add: fetch_image_def requests_get_def raises_for_status_def)
  with p(1-4) have "fetch_attempt i k w = save_image i img_resp
       (w\<lparr>http_log := http_log w @ [MovieUrl i k, ImageUrl (lstrip_slash poster)]\<rparr>)"
    by (simp add: fetch_attempt_def requests_get_def raises_for_status_def)
  with p(7) show ?thesis by blast
qed

lemma fetch_attempt_served:
  assumes "serves_poster (provider w) (length (http_log w)) i k c"
    and "writable w (PosterPath i)"
  shows "\<exists>w'. fetch_attempt i k w = (Returned (Some (PosterPath i)), w')
     \<and> files w' = (files w)(PosterPath i \<mapsto> c)"
  using fetch_attempt_reaches_save [OF assms(1)] assms(2)
  by (auto simp: save_image_def poster_path_def Let_def writable_def)

text \<open>
  When the poster is served and the cache file cannot be written in full, the attempt
  ends in \<^verbatim>\<open>OSError\<close> after its two requests and writes no fail marker.
\<close>

lemma fetch_attempt_put_failure:
  assumes "serves_poster (provider w) (length (http_log w)) i k c"
    and "\<not> writable w (PosterPath i)"
  shows "\<exists>w'. fetch_attempt i k w = (Raised OSError, w')
     \<and> attempts_in (drop (length (http_log w)) (http_log w')) = 1
     \<and> files w' (FailMarkerPath i) = files w (FailMarkerPath i)"
proof -
  from fetch_attempt_reaches_save [OF assms(1)] obtain poster img_resp where
    "fetch_attempt i k w = save_image i img_resp
       (w\<lparr>http_log := http_log w @ [MovieUrl i k, ImageUrl (lstrip_slash poster)]\<rparr>)"
    by blast
  moreover have "attempts_in [MovieUrl i k, ImageUrl (lstrip_slash poster)] = 1"
    by (simp add: attempts_in_simps)
  ultimately show ?thesis
    using assms(2)
    by (cases "disk w (PosterPath i)")
      (auto simp: save_image_def poster_path_def Let_def writable_def)
qed

lemma failing_call:
  "fetch_poster (IdInt 7) 3 failing_world =
     (Inr None, failing_world\<lparr>http_log := [MovieUrl (IdInt 7) ''k'', MovieUrl (IdInt 7) ''k'',
        MovieUrl (IdInt 7) ''k''], slept := 2\<rparr>)"
  by (simp add: failing_world_def world_defs fetch_defs)

text \<open>
  With a credential configured, an identifier for which \<^verbatim>\<open>_is_valid_movie_id\<close>
  answers \<^verbatim>\<open>False\<close> (an integer that is not positive, \<^verbatim>\<open>None\<close>, NaN) makes
  \<^verbatim>\<open>fetch_poster\<close> return \<^verbatim>\<open>None\<close> after the marker write and nothing else: no
  request is made, and the marker file exists afterwards whenever it can be opened.
\<close>

lemma fetch_poster_caught_invalid_id:
  assumes "TMDB_API_KEY w = Some api_key" and "api_key \<noteq> []"
    and "is_valid_movie_id movie_id = Inr False"
  shows "fetch_poster movie_id retries w = (Inr None, write_fail_marker movie_id w)
     \<and> http_log (write_fail_marker movie_id w) = http_log w
     \<and> files (write_fail_marker movie_id w) (poster_path movie_id) = files w (poster_path movie_id)
     \<and> (openable w (fail_marker_path movie_id)
          \<longrightarrow> has_fail_marker movie_id (write_fail_marker movie_id w))"
  using assms
  by (simp add: fetch_poster_def write_fail_marker_fields write_fail_marker_files
      has_fail_marker_def path_exists_def fail_marker_path_def poster_path_def)

lemma is_valid_movie_id_False:
  "is_valid_movie_id movie_id = Inr False
     \<longleftrightarrow> movie_id = IdNone \<or> movie_id = IdNaN \<or> (\<exists>mid. movie_id = IdInt mid \<and> mid \<le> 0)"
  by (cases movie_id) (auto simp: is_valid_movie_id_def)

section \<open>The sort: a permutation, and stable on totally ordered keys\<close>

lemma mset_take_drop: "mset (take n xs) + mset (drop n xs) = mset xs"
  using mset_append [of "take n xs" "drop n xs"] by simp

lemma mset_binarysort: "mset (binarysort lt front rest) = mset front + mset rest"
proof (induction rest arbitrary: front)
  case Nil
  show ?case by simp
next
  case (Cons pivot rest)
  let ?l = "bisect lt pivot front 0 (length front)"
  have "mset (take ?l front @ pivot # drop ?l front) = mset front + {#pivot#}"
    using mset_take_drop [of ?l front] by simp
  with Cons.IH [of "take ?l front @ pivot # drop ?l front"] show ?case
    by (simp add: Let_def)
qed

lemma mset_list_sort: "mset (list_sort lt xs) = mset xs"
proof (cases "length xs < 2")
  case True
  then show ?thesis by (simp add: list_sort_def)
next
  case False
  obtain n d where cr: "count_run lt xs = (n, d)" by (cases "count_run lt xs")
  have "mset (if d then rev (take n xs) else take n xs) + mset (drop n xs) = mset xs"
    using mset_take_drop [of n xs] by simp
  with False cr show ?thesis
    by (simp add: list_sort_def mset_binarysort)
qed










section \<open>Ranking and slicing\<close>

lemma mset_scored: "mset (scored ds) = mset (enumerate 0 ds)"
  by (simp add: scored_def py_sorted_reverse_def mset_list_sort)

lemma set_scored: "set (scored ds) = set (enumerate 0 ds)"
  using mset_scored [of ds] by (rule mset_eq_setD)

lemma length_scored: "length (scored ds) = length ds"
  using mset_scored [of ds] by (auto dest: mset_eq_length)




lemma py_slice_subset: "set (py_slice xs 1 stop) \<subseteq> set (tl xs)"
proof (cases xs)
  case Nil
  then show ?thesis by (simp add: py_slice_def Let_def)
next
  case (Cons x t)
  then have "slice_bound (int (length xs)) 1 = 1"
    by (simp add: slice_bound_def)
  with Cons show ?thesis
    by (auto simp: py_slice_def Let_def dest: in_set_takeD)
qed


lemma length_py_slice:
  "int (length (py_slice xs 1 (top_n + 1))) = slice_count (length xs) top_n"
  by (simp add: py_slice_def slice_bound_def slice_count_def Let_def) arith

lemma length_candidates: "int (length (candidates ds top_n)) = slice_count (length ds) top_n"
  by (simp add: candidates_def length_py_slice length_scored)

lemma candidates_subset: "set (candidates ds top_n) \<subseteq> set (tl (scored ds))"
  by (simp add: candidates_def py_slice_subset)

lemma candidates_member: "c \<in> set (candidates ds top_n) \<Longrightarrow> c \<in> set (enumerate 0 ds)"
  using candidates_subset [of ds top_n] set_scored [of ds]
  by (cases "scored ds") auto






section \<open>The loop of the recommender\<close>


lemma recs_loop_no_key:
  assumes "TMDB_API_KEY w = None \<or> TMDB_API_KEY w = Some []"
    and "\<forall>c \<in> set cands. fst c < length (rows movies)"
  shows "recs_loop movies cands acc w =
     (Inr (acc @ map (\<lambda>c. (item_title (rows movies ! fst c), None)) cands), w)"
  using assms(2)
proof (induction cands arbitrary: acc)
  case Nil
  show ?case by simp
next
  case (Cons c cands)
  obtain idx score where c: "c = (idx, score)" by (cases c)
  from Cons.prems c have idx: "idx < length (rows movies)" by simp
  let ?row = "rows movies ! idx"
  let ?mid = "row_get_movie_id movies ?row"
  have "(if ?mid \<noteq> IdNone then fetch_poster ?mid 3 w else (Inr None, w)) = (Inr None, w)"
    using fetch_poster_no_key [OF assms(1)] by simp
  with idx c have "recs_loop movies (c # cands) acc w
      = recs_loop movies cands (acc @ [(item_title ?row, None)]) w"
    by (simp add: Let_def)
  also have "\<dots> = (Inr ((acc @ [(item_title ?row, None)])
      @ map (\<lambda>c. (item_title (rows movies ! fst c), None)) cands), w)"
    using Cons.prems by (intro Cons.IH) simp
  finally show ?case using c by simp
qed

lemma recommend_reaches_loop:
  assumes "has_title_column movies" and "find_matches movies movie_title = movie_index # others"
    and "similarity_row similarity movie_index = Some distances"
  shows "recommend movies similarity movie_title top_n w
     = recs_loop movies (candidates distances top_n) [] w"
  using assms by (simp add: recommend_def)

lemma recommend_without_row:
  assumes "query_row movies similarity movie_title = None"
  shows "recommend movies similarity movie_title top_n w = (Inr [], w)"
  using assms
  by (auto simp: recommend_def query_row_def split: if_splits list.splits option.splits)

lemma recommend_with_row:
  assumes "query_row movies similarity movie_title = Some distances"
  shows "recommend movies similarity movie_title top_n w
     = recs_loop movies (candidates distances top_n) [] w"
  using assms
  by (auto simp: recommend_def query_row_def split: if_splits list.splits option.splits)

lemma candidates_in_row: "c \<in> set (candidates ds top_n) \<Longrightarrow> fst c < length ds"
  using candidates_member [of c ds top_n] by (simp add: in_set_enumerate_eq)


lemma similarity_row_out_of_bounds:
  "int (length similarity) \<le> movie_index \<or> movie_index < - int (length similarity)
   \<Longrightarrow> similarity_row similarity movie_index = None"
  by (auto simp: similarity_row_def Let_def)

text \<open>The example catalogs and matrices, evaluated.\<close>

lemma small_catalog_matches:
  "find_matches small_catalog ''A'' = [0]" "find_matches small_catalog ''B'' = [1]"
  "has_title_column small_catalog" "length (rows small_catalog) = 4"
  "find_positions small_catalog ''A'' = [0]"
  by (simp_all add: find_matches_def find_positions_def small_catalog_def upt_rec)

lemma gapped_catalog_matches:
  "find_matches gapped_catalog ''B'' = [2]" "find_positions gapped_catalog ''B'' = [1]"
  "has_title_column gapped_catalog" "length (rows gapped_catalog) = 3"
  by (simp_all add: find_matches_def find_positions_def gapped_catalog_def upt_rec)

lemmas sort_defs =
  candidates_def py_slice_def slice_bound_def scored_def py_sorted_reverse_def list_sort_def
  bisect.simps Let_def

lemma rank_examples:
  "scored [Num 9, Num 2, Num 2, Num (0::int)] = [(0, Num 9), (1, Num 2), (2, Num 2), (3, Num 0)]"
  "candidates [Num 9, Num 2, Num 2, Num (0::int)] 5 = [(1, Num 2), (2, Num 2), (3, Num 0)]"
  "candidates [Num 9, Num 2, Num 2, Num (0::int)] 2 = [(1, Num 2), (2, Num 2)]"
  "candidates [Num 9, Num 2, Num 2, Num (0::int)] (- 2) = [(1, Num 2), (2, Num 2)]"
  "candidates [Num 1, Num 2, Num 2, Num (0::int)] 5 = [(2, Num 2), (0, Num 1), (3, Num 0)]"
  "candidates [Num 9, Num 2, NaN, Num (8::int)] 5 = [(1, Num 2), (2, NaN), (3, Num 8)]"
  "candidates [Num 2, Num 3, Num (9::int)] 5 = [(1, Num 3), (0, Num 2)]"
  by (simp_all add: sort_defs)

lemma row_examples:
  "similarity_row diagonal_similarity 0 = Some [Num 9, Num 2, Num 2, Num 0]"
  "similarity_row malformed_similarity 0 = Some [Num 1, Num 2, Num 2, Num 0]"
  "query_row small_catalog diagonal_similarity ''A'' = Some [Num 9, Num 2, Num 2, Num 0]"
  "similarity_row nan_similarity 0 = Some [Num 9, Num 2, NaN, Num 8]"
  "similarity_row three_similarity 2 = Some [Num 2, Num 3, Num 9]"
  "similarity_row three_similarity 1 = Some [Num 1, Num 9, Num 3]"
  by (simp_all add: query_row_def small_catalog_matches similarity_row_def
      diagonal_similarity_def malformed_similarity_def nan_similarity_def three_similarity_def)

lemma offline_no_key: "TMDB_API_KEY offline_world = None \<or> TMDB_API_KEY offline_world = Some []"
  by (simp add: offline_world_def)

lemma offline_key: "TMDB_API_KEY offline_world = None"
  by (simp add: offline_world_def)

lemma recommend_examples:
  "recommend small_catalog diagonal_similarity ''A'' 5 offline_world
     = (Inr [(''B'', None), (''C'', None), (''D'', None)], offline_world)"
  "recommend small_catalog diagonal_similarity ''A'' 2 offline_world
     = (Inr [(''B'', None), (''C'', None)], offline_world)"
  "recommend small_catalog diagonal_similarity ''A'' (- 2) offline_world
     = (Inr [(''B'', None), (''C'', None)], offline_world)"
  "recommend small_catalog malformed_similarity ''A'' 5 offline_world
     = (Inr [(''C'', None), (''A'', None), (''D'', None)], offline_world)"
  "recommend small_catalog nan_similarity ''A'' 5 offline_world
     = (Inr [(''B'', None), (''C'', None), (''D'', None)], offline_world)"
  by (simp_all add: recommend_reaches_loop [OF small_catalog_matches(3) small_catalog_matches(1)]
      row_examples rank_examples recs_loop_no_key [OF offline_no_key] small_catalog_matches(4)
      del: recs_loop.simps)
    (simp_all add: small_catalog_def)


section \<open>Properties of the asset fetcher\<close>

text \<open>
  C8. Without a configured credential (the environment variable is unset or empty),
  \<^verbatim>\<open>fetch_poster\<close> returns \<^verbatim>\<open>None\<close> at once for every identifier, valid or not: the
  world is left exactly as it was, so no request is made and no fail marker is written.
\<close>

theorem fetch_poster_without_credential:
  assumes "TMDB_API_KEY w = None \<or> TMDB_API_KEY w = Some []"
  shows "fetch_poster movie_id retries w = (Inr None, w)"
  using assms by (auto simp: fetch_poster_def)

theorem fetch_poster_without_credential_witness:
  "TMDB_API_KEY offline_world = None
   \<and> fetch_poster (IdInt 42) 3 offline_world = (Inr None, offline_world)
   \<and> fetch_poster IdNaN 3 offline_world = (Inr None, offline_world)"
  using fetch_poster_without_credential [of offline_world "IdInt 42" 3]
    fetch_poster_without_credential [of offline_world IdNaN 3]
  by (simp add: offline_world_def)

text \<open>
  C7. For a valid identifier and a configured credential: when a first call of
  \<^verbatim>\<open>fetch_poster\<close> returns and leaves a terminal record on disk (the cached blob, or
  the fail marker written after a "not found" answer or a missing locator), a second
  call returns the same result as the first (the same cache path, or \<^verbatim>\<open>None\<close>) and
  leaves the world as it is, the request log included: it makes no request. (A first
  call that ends in an exception is not such a call: a failed write can leave an
  incomplete blob behind, which a second call then returns as a cache hit.)
\<close>

theorem fetch_poster_idempotent:
  assumes key: "TMDB_API_KEY w = Some api_key" "api_key \<noteq> []"
    and valid: "is_valid_movie_id movie_id = Inr True"
    and first: "fetch_poster movie_id retries w = (Inr r, w1)"
    and terminal: "path_exists w1 (poster_path movie_id) \<or> has_fail_marker movie_id w1"
  shows "fetch_poster movie_id retries2 w1 = (Inr r, w1)
     \<and> r = (if path_exists w1 (poster_path movie_id) then Some (poster_path movie_id) else None)
     \<and> http_log (snd (fetch_poster movie_id retries2 w1)) = http_log w1"
proof -
  from fetch_poster_effect [OF first] key
  have key1: "TMDB_API_KEY w1 = Some api_key"
    by (simp add: fetch_effect_def same_environment_def)
  have shape: "(r = Some (PosterPath movie_id) \<and> files w1 (PosterPath movie_id) \<noteq> None)
       \<or> (r = None \<and> files w1 (PosterPath movie_id) = None)"
  proof (cases "files w (PosterPath movie_id)")
    case (Some c)
    then have "files w (PosterPath movie_id) \<noteq> None" by simp
    from fetch_poster_cached [OF key valid this, of retries] first Some show ?thesis
      by auto
  next
    case None
    show ?thesis
    proof (cases "files w (FailMarkerPath movie_id)")
      case (Some c)
      then have "files w (FailMarkerPath movie_id) \<noteq> None" by simp
      from fetch_poster_marked [OF key valid None this, of retries] first None show ?thesis
        by auto
    next
      case no_marker: None
      from fetch_poster_miss [OF key valid None no_marker, of retries] first
      have "fetch_loop movie_id api_key retries [0..<nat retries] w = (Inr r, w1)"
        by simp
      from fetch_loop_from_absent [OF this None no_marker] show ?thesis
        by auto
    qed
  qed
  from shape terminal consider
    (hit) "r = Some (PosterPath movie_id)" "files w1 (PosterPath movie_id) \<noteq> None"
    | (neg) "r = None" "files w1 (PosterPath movie_id) = None"
      "files w1 (FailMarkerPath movie_id) \<noteq> None"
    by (auto simp: path_exists_def has_fail_marker_def poster_path_def fail_marker_path_def)
  then show ?thesis
  proof cases
    case hit
    with fetch_poster_cached [OF key1 key(2) valid hit(2), of retries2] show ?thesis
      by (simp add: path_exists_def poster_path_def)
  next
    case neg
    with fetch_poster_marked [OF key1 key(2) valid neg(2,3), of retries2] show ?thesis
      by (simp add: path_exists_def poster_path_def)
  qed
qed

theorem fetch_poster_idempotent_witness:
  "TMDB_API_KEY healthy_world = Some ''k'' \<and> is_valid_movie_id (IdInt 42) = Inr True
   \<and> fst (fetch_poster (IdInt 42) 3 healthy_world) = Inr (Some (PosterPath (IdInt 42)))
   \<and> path_exists (snd (fetch_poster (IdInt 42) 3 healthy_world)) (poster_path (IdInt 42))
   \<and> fetch_poster (IdInt 42) 3 (snd (fetch_poster (IdInt 42) 3 healthy_world))
       = (Inr (Some (PosterPath (IdInt 42))), snd (fetch_poster (IdInt 42) 3 healthy_world))
   \<and> fst (fetch_poster (IdInt 42) 3 not_found_world) = Inr None
   \<and> has_fail_marker (IdInt 42) (snd (fetch_poster (IdInt 42) 3 not_found_world))
   \<and> fetch_poster (IdInt 42) 3 (snd (fetch_poster (IdInt 42) 3 not_found_world))
       = (Inr None, snd (fetch_poster (IdInt 42) 3 not_found_world))"
  using
    fetch_poster_idempotent [of healthy_world "''k''" "IdInt 42" 3
      "Some (PosterPath (IdInt 42))"
      "snd (fetch_poster (IdInt 42) 3 healthy_world)" 3]
    fetch_poster_idempotent [of not_found_world "''k''" "IdInt 42" 3
      None
      "snd (fetch_poster (IdInt 42) 3 not_found_world)" 3]
  unfolding healthy_first_call not_found_first_call
  by (simp add: world_defs is_valid_movie_id_def path_exists_def poster_path_def
      has_fail_marker_def fail_marker_path_def)

text \<open>
  C5. For a valid identifier with neither cached blob nor fail marker, when every
  attempt fails transiently (the request raises, or the status is an error other than
  404), \<^verbatim>\<open>fetch_poster\<close> makes exactly \<open>retries\<close> attempts (none for a negative
  count), returns \<^verbatim>\<open>None\<close> and leaves the files untouched: the record stays absent, and a
  later call against a provider that serves the poster fetches and caches it.
\<close>

theorem fetch_poster_all_transient:
  assumes key: "TMDB_API_KEY w = Some api_key" "api_key \<noteq> []"
    and valid: "is_valid_movie_id movie_id = Inr True"
    and uncached: "\<not> path_exists w (poster_path movie_id)"
    and unmarked: "\<not> has_fail_marker movie_id w"
    and transient: "\<forall>t. attempt_fails_transiently (provider w) t movie_id api_key"
  shows "\<exists>w'. fetch_poster movie_id retries w = (Inr None, w')
     \<and> (\<exists>ext. http_log w' = http_log w @ ext \<and> int (attempts_in ext) = max 0 retries)
     \<and> files w' = files w
     \<and> asset_record w' movie_id = Absent
     \<and> (\<forall>prov c retries2.
          serves_poster prov (length (http_log w')) movie_id api_key c
          \<and> writable w' (poster_path movie_id) \<and> 0 < retries2
          \<longrightarrow> fst (fetch_poster movie_id retries2 (w'\<lparr>provider := prov\<rparr>)) = Inr (Some (poster_path movie_id))
              \<and> files (snd (fetch_poster movie_id retries2 (w'\<lparr>provider := prov\<rparr>))) (poster_path movie_id) = Some c)"
proof -
  from uncached unmarked
  have none: "files w (PosterPath movie_id) = None" "files w (FailMarkerPath movie_id) = None"
    by (simp_all add: path_exists_def has_fail_marker_def poster_path_def fail_marker_path_def)
  from fetch_loop_transient [OF transient, of retries 0] obtain w' ext where loop:
    "fetch_loop movie_id api_key retries [0..<nat retries] w = (Inr None, w')"
    "files w' = files w" "same_environment w w'"
    "http_log w' = http_log w @ ext" "attempts_in ext = nat retries"
    by auto
  from fetch_poster_miss [OF key valid none, of retries] loop(1)
  have call: "fetch_poster movie_id retries w = (Inr None, w')"
    by simp
  have count: "\<exists>ext. http_log w' = http_log w @ ext \<and> int (attempts_in ext) = max 0 retries"
    using loop(4,5) by auto
  have absent: "asset_record w' movie_id = Absent"
    using loop(2) none
    by (simp add: asset_record_def path_exists_def has_fail_marker_def poster_path_def
        fail_marker_path_def)
  have later: "fst (fetch_poster movie_id retries2 (w'\<lparr>provider := prov\<rparr>)) = Inr (Some (poster_path movie_id))
      \<and> files (snd (fetch_poster movie_id retries2 (w'\<lparr>provider := prov\<rparr>))) (poster_path movie_id) = Some c"
    if healthy: "serves_poster prov (length (http_log w')) movie_id api_key c"
      and wr: "writable w' (poster_path movie_id)" and pos: "0 < retries2"
    for prov c retries2
  proof -
    let ?w2 = "w'\<lparr>provider := prov\<rparr>"
    have key2: "TMDB_API_KEY ?w2 = Some api_key"
      using loop(3) key by (simp add: same_environment_def)
    have none2: "files ?w2 (PosterPath movie_id) = None" "files ?w2 (FailMarkerPath movie_id) = None"
      using loop(2) none by simp_all
    from healthy wr have "serves_poster (provider ?w2) (length (http_log ?w2)) movie_id api_key c"
      "writable ?w2 (PosterPath movie_id)"
      by (simp_all add: poster_path_def writable_def)
    from fetch_attempt_served [OF this] obtain w3 where att:
      "fetch_attempt movie_id api_key ?w2 = (Returned (Some (PosterPath movie_id)), w3)"
      "files w3 = (files ?w2)(PosterPath movie_id \<mapsto> c)"
      by blast
    from pos have "[0..<nat retries2] = 0 # [1..<nat retries2]"
      by (simp add: upt_conv_Cons)
    with att(1)
    have "fetch_loop movie_id api_key retries2 [0..<nat retries2] ?w2 = (Inr (Some (PosterPath movie_id)), w3)"
      by simp
    with fetch_poster_miss [OF key2 key(2) valid none2, of retries2] att(2) show ?thesis
      by (simp add: poster_path_def)
  qed
  from call count loop(2) absent later show ?thesis
    by blast
qed

theorem fetch_poster_all_transient_witness:
  "TMDB_API_KEY failing_world = Some ''k'' \<and> is_valid_movie_id (IdInt 7) = Inr True
   \<and> \<not> path_exists failing_world (poster_path (IdInt 7))
   \<and> \<not> has_fail_marker (IdInt 7) failing_world
   \<and> (\<forall>t. attempt_fails_transiently (provider failing_world) t (IdInt 7) ''k'')
   \<and> fst (fetch_poster (IdInt 7) 3 failing_world) = Inr None
   \<and> attempts_in (http_log (snd (fetch_poster (IdInt 7) 3 failing_world))) = 3
   \<and> files (snd (fetch_poster (IdInt 7) 3 failing_world)) = Map.empty
   \<and> serves_poster (provider healthy_world) 3 (IdInt 7) ''k'' ''img''
   \<and> fst (fetch_poster (IdInt 7) 1
        (snd (fetch_poster (IdInt 7) 3 failing_world)\<lparr>provider := provider healthy_world\<rparr>))
       = Inr (Some (PosterPath (IdInt 7)))"
proof -
  have hyps: "TMDB_API_KEY failing_world = Some ''k''" "''k'' \<noteq> []" "is_valid_movie_id (IdInt 7) = Inr True"
    "\<not> path_exists failing_world (poster_path (IdInt 7))"
    "\<not> has_fail_marker (IdInt 7) failing_world"
    "\<forall>t. attempt_fails_transiently (provider failing_world) t (IdInt 7) ''k''"
    by (simp_all add: failing_world_def world_defs is_valid_movie_id_def path_exists_def
        has_fail_marker_def attempt_fails_transiently_def raises_for_status_def)
  have healthy: "serves_poster (provider healthy_world) 3 (IdInt 7) ''k'' ''img''"
    by (simp add: world_defs serves_poster_def)
  from fetch_poster_all_transient [OF hyps, of 3] obtain w' where
    call: "fetch_poster (IdInt 7) 3 failing_world = (Inr None, w')"
    and later: "\<forall>prov c retries2.
          serves_poster prov (length (http_log w')) (IdInt 7) ''k'' c
          \<and> writable w' (poster_path (IdInt 7)) \<and> 0 < retries2
          \<longrightarrow> fst (fetch_poster (IdInt 7) retries2 (w'\<lparr>provider := prov\<rparr>)) = Inr (Some (poster_path (IdInt 7)))
              \<and> files (snd (fetch_poster (IdInt 7) retries2 (w'\<lparr>provider := prov\<rparr>))) (poster_path (IdInt 7)) = Some c"
    by blast
  from call have w': "w' = failing_world\<lparr>http_log := [MovieUrl (IdInt 7) ''k'', MovieUrl (IdInt 7) ''k'',
        MovieUrl (IdInt 7) ''k''], slept := 2\<rparr>"
    by (simp add: failing_call)
  have "serves_poster (provider healthy_world) (length (http_log w')) (IdInt 7) ''k'' ''img''
      \<and> writable w' (poster_path (IdInt 7)) \<and> (0::int) < 1"
    by (simp add: w' failing_world_def world_defs serves_poster_def writable_def)
  with later have "fst (fetch_poster (IdInt 7) 1 (w'\<lparr>provider := provider healthy_world\<rparr>))
      = Inr (Some (poster_path (IdInt 7)))"
    by blast
  with hyps healthy show ?thesis
    unfolding call
    by (simp add: w' attempts_in_simps poster_path_def failing_world_def world_defs)
qed

text \<open>
  C2. The claim is that a failed write of the fetched bytes makes \<^verbatim>\<open>fetch_poster\<close>
  return \<^verbatim>\<open>None\<close>. The code does not: for the valid, uncached, unmarked identifier 7,
  a provider that serves the poster and a cache path that cannot be written, the
  \<^verbatim>\<open>OSError\<close> of \<^verbatim>\<open>open(cache_path, "wb")\<close> is not a \<^verbatim>\<open>RequestException\<close> and leaves
  the function as an exception. The rest of the claim holds there: no fail marker is
  written and the one attempt (two requests) is not repeated. The same happens when the
  file can be created and the write fails on a full disk; the empty file then stays
  behind.
\<close>

theorem fetch_poster_put_failure_raises:
  "is_valid_movie_id (IdInt 7) = Inr True
   \<and> \<not> path_exists read_only_world (poster_path (IdInt 7))
   \<and> \<not> has_fail_marker (IdInt 7) read_only_world
   \<and> serves_poster (provider read_only_world) 0 (IdInt 7) ''k'' ''img''
   \<and> \<not> writable read_only_world (poster_path (IdInt 7))
   \<and> fetch_poster (IdInt 7) 3 read_only_world =
       (Inl OSError, read_only_world\<lparr>http_log := [MovieUrl (IdInt 7) ''k'', ImageUrl ''p.jpg'']\<rparr>)
   \<and> fst (fetch_poster (IdInt 7) 3 read_only_world) \<noteq> Inr None
   \<and> \<not> writable full_disk_world (poster_path (IdInt 7))
   \<and> fetch_poster (IdInt 7) 3 full_disk_world =
       (Inl OSError, full_disk_world\<lparr>files := [PosterPath (IdInt 7) \<mapsto> []],
          http_log := [MovieUrl (IdInt 7) ''k'', ImageUrl ''p.jpg'']\<rparr>)"
  by (simp add: read_only_world_def world_defs fetch_defs serves_poster_def)

text \<open>
  C6. Take an identifier whose record is consistent at the start (a cached blob, if
  there is one, belongs to a valid identifier and has no fail marker beside it; the
  empty directory is such a start). Across any sequence of \<^verbatim>\<open>fetch_poster\<close> calls, for
  any identifiers and retry counts, with any changes of the environment in between, the
  record stays consistent, so blob and marker never exist together; and once the record
  is terminal (cached or permanently unavailable) it keeps its state and its files
  through all later calls, none of which sends a metadata request for that identifier.
  A record therefore only ever moves from absent to cached or from absent to
  permanently unavailable.
\<close>

theorem asset_record_monotonic:
  assumes "store_consistent w i"
  shows "store_consistent (run earlier w) i
     \<and> asset_record (run earlier w) i \<noteq> Corrupted
     \<and> (asset_record (run earlier w) i \<noteq> Absent \<longrightarrow>
          asset_record (run (earlier @ later) w) i = asset_record (run earlier w) i
          \<and> files (run (earlier @ later) w) (poster_path i) = files (run earlier w) (poster_path i)
          \<and> files (run (earlier @ later) w) (fail_marker_path i) = files (run earlier w) (fail_marker_path i)
          \<and> (\<exists>ext. http_log (run (earlier @ later) w) = http_log (run earlier w) @ ext
                \<and> (\<forall>k. MovieUrl i k \<notin> set ext)))"
proof -
  from run_record [OF assms, of earlier] have c1: "store_consistent (run earlier w) i"
    by simp
  then have nc: "asset_record (run earlier w) i \<noteq> Corrupted"
    by (auto simp: store_consistent_def asset_record_def)
  from run_record [OF c1, of later] asset_record_files [of "run later (run earlier w)" i "run earlier w"]
  show ?thesis
    using c1 nc by (simp add: run_append poster_path_def fail_marker_path_def)
qed

theorem asset_record_monotonic_witness:
  "store_consistent healthy_world (IdInt 42)
   \<and> asset_record healthy_world (IdInt 42) = Absent
   \<and> asset_record (run [Fetch (IdInt 42) 3] healthy_world) (IdInt 42) = Cached
   \<and> asset_record (run ([Fetch (IdInt 42) 3] @
        [Fetch (IdInt 42) 3, Reconfigure (Some ''k'') (\<lambda>p. WriteOk) (provider not_found_world),
         Fetch (IdInt 7) 3, Fetch (IdInt 42) 3]) healthy_world) (IdInt 42) = Cached
   \<and> files (run ([Fetch (IdInt 42) 3] @
        [Fetch (IdInt 42) 3, Reconfigure (Some ''k'') (\<lambda>p. WriteOk) (provider not_found_world),
         Fetch (IdInt 7) 3, Fetch (IdInt 42) 3]) healthy_world) (poster_path (IdInt 42)) = Some ''img''"
  using asset_record_monotonic [of healthy_world "IdInt 42" "[Fetch (IdInt 42) 3]"
      "[Fetch (IdInt 42) 3, Reconfigure (Some ''k'') (\<lambda>p. WriteOk) (provider not_found_world),
         Fetch (IdInt 7) 3, Fetch (IdInt 42) 3]"]
  unfolding run_healthy
  by (simp add: store_consistent_def asset_record_def world_defs path_exists_def
      has_fail_marker_def poster_path_def fail_marker_path_def)

text \<open>
  C9. The claim is that, with a credential configured, every identifier that does not
  coerce to an integer greater than zero gets a fail marker and the answer \<^verbatim>\<open>None\<close>,
  with no request. The code does this where \<^verbatim>\<open>int(movie_id)\<close> gives a value that is
  not positive or raises \<^verbatim>\<open>TypeError\<close> or \<^verbatim>\<open>ValueError\<close>. It does not for a float
  infinity: \<^verbatim>\<open>int\<close> raises \<^verbatim>\<open>OverflowError\<close>, which \<^verbatim>\<open>except (TypeError, ValueError)\<close>
  lets through, so \<^verbatim>\<open>fetch_poster\<close> ends in that exception, writes no marker and
  returns nothing. No request is made.
\<close>

theorem fetch_poster_infinite_id_raises:
  "TMDB_API_KEY keyed_world = Some ''k''
   \<and> is_valid_movie_id IdInf = Inl OverflowError
   \<and> fetch_poster IdInf 3 keyed_world = (Inl OverflowError, keyed_world)
   \<and> fst (fetch_poster IdInf 3 keyed_world) \<noteq> Inr None
   \<and> \<not> has_fail_marker IdInf (snd (fetch_poster IdInf 3 keyed_world))
   \<and> http_log (snd (fetch_poster IdInf 3 keyed_world)) = []
   \<and> fetch_poster IdNegInf 3 keyed_world = (Inl OverflowError, keyed_world)"
  by (simp add: fetch_poster_def is_valid_movie_id_def keyed_world_def offline_world_def
      has_fail_marker_def path_exists_def)

section \<open>Properties of the recommender\<close>

text \<open>
  C1 (as the code has it). When the title is found but its row index lies outside the
  similarity matrix (at or past its length, or before minus its length), \<^verbatim>\<open>recommend\<close>
  does not fail: the \<^verbatim>\<open>except Exception\<close> clause around the lookup swallows the error
  and the call returns the empty list, leaving the world untouched. No
  \<^verbatim>\<open>RankingError\<close> reaches the caller.
\<close>

theorem recommend_lookup_failure:
  assumes "has_title_column movies"
    and "find_matches movies movie_title = movie_index # others"
    and "int (length similarity) \<le> movie_index \<or> movie_index < - int (length similarity)"
  shows "recommend movies similarity movie_title top_n w = (Inr [], w)"
  using assms(1,2) similarity_row_out_of_bounds [OF assms(3)]
  by (simp add: recommend_def)

theorem recommend_lookup_failure_witness:
  "has_title_column small_catalog \<and> find_matches small_catalog ''A'' = [0]
   \<and> int (length ([] :: int similarity)) \<le> 0
   \<and> recommend small_catalog ([] :: int similarity) ''A'' 5 keyed_world = (Inr [], keyed_world)
   \<and> find_matches gapped_catalog ''B'' = [2]
   \<and> int (length ([[Num 1, Num 0], [Num 0, Num 1]] :: int similarity)) \<le> 2
   \<and> recommend gapped_catalog ([[Num 1, Num 0], [Num 0, Num 1]] :: int similarity) ''B'' 5
         keyed_world = (Inr [], keyed_world)"
  using recommend_lookup_failure [of small_catalog "''A''" 0 "[]" "[] :: int similarity" 5 keyed_world]
    recommend_lookup_failure [of gapped_catalog "''B''" 2 "[]"
      "[[Num 1, Num 0], [Num 0, Num 1]] :: int similarity" 5 keyed_world]
  by (simp add: small_catalog_matches gapped_catalog_matches)

theorem recommend_lookup_failure_counterexample:
  "find_matches small_catalog ''A'' = [0]
   \<and> similarity_row ([] :: int similarity) 0 = None
   \<and> fst (recommend small_catalog ([] :: int similarity) ''A'' 5 offline_world) = Inr []"
  by (simp add: small_catalog_matches recommend_def similarity_row_def)







text \<open>
  C10 (as the code has it). With no credential configured and a query row no longer
  than the catalog, \<^verbatim>\<open>recommend\<close> returns normally for every title and every
  \<open>top_n\<close>, leaving the world as it is: the empty list when the table has no title
  column, the title is absent or the matrix has no row for it; otherwise one entry per
  candidate, each without a poster, \<open>max 0 (min top_n (rowLength - 1))\<close> of them when
  \<open>top_n \<ge> -1\<close> and \<open>max 0 (rowLength + top_n)\<close> of them when \<open>top_n < -1\<close> (the slice
  \<^verbatim>\<open>scored[1 : top_n + 1]\<close> then counts its end from the back of the list).
\<close>

theorem recommend_total_without_credential:
  assumes "TMDB_API_KEY w = None \<or> TMDB_API_KEY w = Some []"
    and "\<forall>distances. query_row movies similarity movie_title = Some distances
           \<longrightarrow> length distances \<le> length (rows movies)"
  shows "\<exists>recs. recommend movies similarity movie_title top_n w = (Inr recs, w)
     \<and> (\<not> has_title_column movies \<or> find_matches movies movie_title = [] \<longrightarrow> recs = [])
     \<and> (case query_row movies similarity movie_title of
           None \<Rightarrow> recs = []
         | Some distances \<Rightarrow>
             recs = map (\<lambda>c. (item_title (rows movies ! fst c), None)) (candidates distances top_n)
             \<and> int (length recs) =
                 (if - 1 \<le> top_n then max 0 (min top_n (int (length distances) - 1))
                  else max 0 (int (length distances) + top_n)))"
proof (cases "query_row movies similarity movie_title")
  case None
  from recommend_without_row [OF None, of top_n w] None show ?thesis
    by simp
next
  case (Some distances)
  let ?cands = "candidates distances top_n"
  let ?recs = "map (\<lambda>c. (item_title (rows movies ! fst c), None :: path option)) ?cands"
  from assms(2) Some have "length distances \<le> length (rows movies)"
    by simp
  with candidates_in_row [of _ distances top_n]
  have "\<forall>c \<in> set ?cands. fst c < length (rows movies)"
    by fastforce
  from recs_loop_no_key [OF assms(1) this, of "[]"] recommend_with_row [OF Some, of top_n w]
  have call: "recommend movies similarity movie_title top_n w = (Inr ?recs, w)"
    by simp
  have len: "int (length ?recs) =
      (if - 1 \<le> top_n then max 0 (min top_n (int (length distances) - 1))
       else max 0 (int (length distances) + top_n))"
    using length_candidates [of distances top_n] by (simp add: slice_count_def)
  from Some have found: "\<not> (\<not> has_title_column movies \<or> find_matches movies movie_title = [])"
    by (auto simp: query_row_def split: if_splits)
  from call len found Some show ?thesis
    by simp
qed

theorem recommend_total_without_credential_witness:
  "TMDB_API_KEY offline_world = None
   \<and> query_row small_catalog diagonal_similarity ''A'' = Some [Num 9, Num 2, Num 2, Num 0]
   \<and> length ([Num 9, Num 2, Num 2, Num 0]::int score list) \<le> length (rows small_catalog)
   \<and> recommend small_catalog diagonal_similarity ''A'' 2 offline_world
       = (Inr [(''B'', None), (''C'', None)], offline_world)
   \<and> int (length [(''B'', None::path option), (''C'', None)])
       = max 0 (min 2 (int (length ([Num 9, Num 2, Num 2, Num 0]::int score list)) - 1))"
  using recommend_total_without_credential [of offline_world small_catalog diagonal_similarity
      "''A''" 2]
  by (simp add: small_catalog_matches row_examples recommend_examples offline_key rank_examples)

theorem recommend_total_without_credential_counterexample:
  "TMDB_API_KEY offline_world = None
   \<and> query_row small_catalog diagonal_similarity ''A'' = Some [Num 9, Num 2, Num 2, Num 0]
   \<and> length ([Num 9, Num 2, Num 2, Num 0]::int score list) \<le> length (rows small_catalog)
   \<and> recommend small_catalog diagonal_similarity ''A'' (- 2) offline_world
       = (Inr [(''B'', None), (''C'', None)], offline_world)
   \<and> int (length [(''B'', None::path option), (''C'', None)])
       \<noteq> max 0 (min (- 2) (int (length ([Num 9, Num 2, Num 2, Num 0]::int score list)) - 1))"
  by (simp add: small_catalog_matches row_examples recommend_examples offline_key rank_examples)

end
